theory Spec2Isabelle
  imports Main "HOL-Library.Multiset"
begin

section \<open>Values, errors and the helper shared by the modules\<close>

text \<open>
  The modules keep their desired and observed state in Python dictionaries. A dictionary
  is an association list in insertion order; a key whose value would be \<open>None\<close> is
  absent from the list. The values that occur are strings, lists of strings, booleans and
  integers.
\<close>

datatype pyval = VStr string | VList "string list" | VBool bool | VInt int

type_synonym pydict = "(string \<times> pyval) list"

text \<open>
  \<open>module.fail_json\<close> ends the run with an error; every call site has its own constructor,
  carrying the values its message is formatted from. \<open>Raise\<close> is a Python exception that
  no handler catches, named by its class.
\<close>

datatype error =
    Rest_error string
  | Unexpected_igroup_body
  | From_name_not_found "string option"
  | Os_type_required
  | Modify_not_supported pydict string
  | Option_not_supported_in_rest string
  | Rename_internal_error
  | Zapi_error string string string
  | Volume_not_found string
  | Mount_targets_not_found string
  | Volume_create_error string string
  | Volume_delete_error string string
  | Raise string

text \<open>The helper object \<open>na_helper\<close> carries one flag, \<open>changed\<close>, initially false.\<close>

record na_helper =
  changed :: bool

definition new_helper :: na_helper where
  "new_helper = \<lparr>changed = False\<rparr>"

definition desired_state :: "pydict \<Rightarrow> string" where
  "desired_state desired =
     (case map_of desired ''state'' of Some (VStr s) \<Rightarrow> s | _ \<Rightarrow> ''present'')"

text \<open>
  Modelled from the spec: \<open>NetAppModule.get_cd_action\<close> (module_utils/netapp_module.py) is
  not among the source files. The spec's table: an absent resource with desired state
  "present" gives create, a present resource with desired state "absent" gives delete, and
  otherwise the helper decides nothing; the helper tracks that a change is made. The
  callers read \<open>na_helper.changed\<close> right after the call, so the flag is set with the action.
\<close>

definition get_cd_action ::
  "na_helper \<Rightarrow> 'a option \<Rightarrow> pydict \<Rightarrow> string option \<times> na_helper" where
  "get_cd_action h current desired =
     (if current = None \<and> desired_state desired = ''present''
        then (Some ''create'', h\<lparr>changed := True\<rparr>)
      else if current \<noteq> None \<and> desired_state desired = ''absent''
        then (Some ''delete'', h\<lparr>changed := True\<rparr>)
      else (None, h))"

text \<open>
  Modelled from the spec: \<open>NetAppModule.get_modified_attributes\<close> is not among the source
  files. The spec asks for the exact set of changed fields: a field is comparable when the
  observed record and the desired record both have it, and it is changed when the two
  values differ; the result maps each changed field to its desired (new) value, the old
  value staying in the observed record. The spec asks that the two sides of a comparison
  are in the same normalised representation, by case folding: two strings are compared in
  lower case (of the ASCII letters). Two lists are compared as collections of members, each
  counted as often as it occurs, whatever their order. A non-empty result marks the run as
  changed.
\<close>

definition lower_char :: "char \<Rightarrow> char" where
  "lower_char c =
     (let n = (of_char c :: nat) in if 65 \<le> n \<and> n \<le> 90 then char_of (n + 32) else c)"

definition lower :: "string \<Rightarrow> string" where
  "lower s = map lower_char s"

fun differs :: "pyval \<Rightarrow> pyval \<Rightarrow> bool" where
  "differs (VStr a) (VStr b) = (lower a \<noteq> lower b)"
| "differs (VList a) (VList b) = (mset a \<noteq> mset b)"
| "differs v d = (v \<noteq> d)"

fun changed_fields :: "pydict \<Rightarrow> pydict \<Rightarrow> pydict" where
  "changed_fields [] desired = []"
| "changed_fields ((k, v) # current) desired =
     (case map_of desired k of
        None \<Rightarrow> changed_fields current desired
      | Some d \<Rightarrow> (if differs v d then (k, d) # changed_fields current desired
                 else changed_fields current desired))"

definition get_modified_attributes ::
  "na_helper \<Rightarrow> pydict option \<Rightarrow> pydict \<Rightarrow> pydict \<times> na_helper" where
  "get_modified_attributes h current desired =
     (case current of
        None \<Rightarrow> ([], h)
      | Some c \<Rightarrow>
          (let modified = changed_fields c desired
           in (modified, if modified \<noteq> [] then h\<lparr>changed := True\<rparr> else h)))"

text \<open>
  Modelled from the spec: \<open>NetAppModule.is_rename_action\<close> is not among the source files.
  The spec: when a resource named \<open>from_name\<close> exists and one named \<open>name\<close> does not, the run
  is a rename, and a change. The caller treats the answer \<open>None\<close> as "nothing to rename
  from", the case where neither exists.
\<close>

definition is_rename_action ::
  "na_helper \<Rightarrow> 'a option \<Rightarrow> 'a option \<Rightarrow> bool option \<times> na_helper" where
  "is_rename_action h source target =
     (if source = None \<and> target = None then (None, h)
      else if source \<noteq> None \<and> target = None then (Some True, h\<lparr>changed := True\<rparr>)
      else (Some False, h))"

section \<open>na_ontap_igroup\<close>

subsection \<open>Parameters\<close>

text \<open>
  The module's argument specification: \<open>state\<close> (default "present"), \<open>name\<close> and \<open>vserver\<close>
  (required), \<open>force_remove_initiator\<close> (default false), and five optional parameters.
\<close>

record parameters =
  state :: string
  name :: string
  from_name :: "string option"
  os_type :: "string option"
  initiator_group_type :: "string option"
  initiators :: "string list option"
  vserver :: string
  force_remove_initiator :: bool
  bind_portset :: "string option"

definition opt_entry :: "string \<Rightarrow> ('a \<Rightarrow> pyval) \<Rightarrow> 'a option \<Rightarrow> pydict" where
  "opt_entry k f v = (case v of None \<Rightarrow> [] | Some x \<Rightarrow> [(k, f x)])"

text \<open>
  \<open>self.parameters\<close> as the dictionary the helper reads: \<open>set_parameters\<close> keeps the
  parameters whose value is not \<open>None\<close>. The connection parameters (hostname, username
  and the like) name no field of an igroup and are left out.
\<close>

definition params_dict :: "parameters \<Rightarrow> pydict" where
  "params_dict p =
     [(''state'', VStr (state p)), (''name'', VStr (name p))]
     @ opt_entry ''from_name'' VStr (from_name p)
     @ opt_entry ''os_type'' VStr (os_type p)
     @ opt_entry ''initiator_group_type'' VStr (initiator_group_type p)
     @ opt_entry ''initiators'' VList (initiators p)
     @ [(''vserver'', VStr (vserver p)),
        (''force_remove_initiator'', VBool (force_remove_initiator p))]
     @ opt_entry ''bind_portset'' VStr (bind_portset p)"

subsection \<open>The remote system\<close>

text \<open>
  The calls the module sends that are not reads. A REST call addresses an igroup by the
  \<open>uuid\<close> variable of \<open>apply\<close>, which is \<open>None\<close> until a record was read over REST.
\<close>

record igroup_body =
  body_name :: string
  body_os_type :: string
  body_svm :: string
  body_protocol :: "string option"
  body_portset :: "string option"
  body_initiators :: "string list option"

datatype call =
    Ems_log_event
  | Rest_post_igroup igroup_body
  | Rest_post_initiators "string option" "string list"
  | Rest_delete_initiator "string option" string
  | Rest_patch_igroup "string option" pydict
  | Rest_delete_igroup "string option" bool
  | Zapi_igroup_create string "string option" "string option" "string option"
  | Zapi_modify_initiator string string string
  | Zapi_igroup_destroy string bool
  | Zapi_igroup_rename string string

text \<open>
  The igroups of the vserver as the remote system holds them, and what each call does to
  them. This is the environment: the storage system keeps what it is sent, an initiator is
  in a group at most once, an igroup created over REST without a protocol gets the protocol
  "mixed", and a call that addresses no igroup changes nothing.
\<close>

record igroup =
  ig_name :: string
  ig_uuid :: string
  ig_os_type :: "string option"
  ig_protocol :: "string option"
  ig_portset :: "string option"
  ig_initiators :: "string list"

definition add_members :: "string list \<Rightarrow> igroup \<Rightarrow> igroup" where
  "add_members xs g = g\<lparr>ig_initiators := remdups (ig_initiators g @ xs)\<rparr>"

definition remove_member :: "string \<Rightarrow> igroup \<Rightarrow> igroup" where
  "remove_member x g = g\<lparr>ig_initiators := removeAll x (ig_initiators g)\<rparr>"

fun patch :: "pydict \<Rightarrow> igroup \<Rightarrow> igroup" where
  "patch [] g = g"
| "patch ((k, VStr v) # body) g =
     patch body
       (if k = ''name'' then g\<lparr>ig_name := v\<rparr>
        else if k = ''os_type'' then g\<lparr>ig_os_type := Some v\<rparr>
        else if k = ''portset'' then g\<lparr>ig_portset := Some v\<rparr>
        else g)"
| "patch (kv # body) g = patch body g"

definition at_uuid :: "string option \<Rightarrow> (igroup \<Rightarrow> igroup) \<Rightarrow> igroup list \<Rightarrow> igroup list" where
  "at_uuid u f gs = map (\<lambda>g. if Some (ig_uuid g) = u then f g else g) gs"

definition at_name :: "string \<Rightarrow> (igroup \<Rightarrow> igroup) \<Rightarrow> igroup list \<Rightarrow> igroup list" where
  "at_name n f gs = map (\<lambda>g. if ig_name g = n then f g else g) gs"

fun effect :: "string \<Rightarrow> call \<Rightarrow> igroup list \<Rightarrow> igroup list" where
  "effect new Ems_log_event gs = gs"
| "effect new (Rest_post_igroup b) gs =
     gs @ [\<lparr>ig_name = body_name b, ig_uuid = new, ig_os_type = Some (body_os_type b),
            ig_protocol = Some (case body_protocol b of None \<Rightarrow> ''mixed'' | Some ty \<Rightarrow> ty),
            ig_portset = body_portset b,
            ig_initiators = (case body_initiators b of None \<Rightarrow> [] | Some xs \<Rightarrow> remdups xs)\<rparr>]"
| "effect new (Rest_post_initiators u xs) gs = at_uuid u (add_members xs) gs"
| "effect new (Rest_delete_initiator u x) gs = at_uuid u (remove_member x) gs"
| "effect new (Rest_patch_igroup u body) gs = at_uuid u (patch body) gs"
| "effect new (Rest_delete_igroup u force) gs = filter (\<lambda>g. Some (ig_uuid g) \<noteq> u) gs"
| "effect new (Zapi_igroup_create n os ty ps) gs =
     gs @ [\<lparr>ig_name = n, ig_uuid = new, ig_os_type = os, ig_protocol = ty, ig_portset = ps,
            ig_initiators = []\<rparr>]"
| "effect new (Zapi_modify_initiator zapi n x) gs =
     (if zapi = ''igroup-add'' then at_name n (add_members [x]) gs
      else if zapi = ''igroup-remove'' then at_name n (remove_member x) gs
      else gs)"
| "effect new (Zapi_igroup_destroy n force) gs = filter (\<lambda>g. ig_name g \<noteq> n) gs"
| "effect new (Zapi_igroup_rename old n) gs = at_name old (\<lambda>g. g\<lparr>ig_name := n\<rparr>) gs"

text \<open>
  The remote system while a run goes on: the igroups, and the calls received so far. The
  service answers a call with an error message or accepts it; \<open>fault\<close> gives the answer,
  and \<open>new_uuid\<close> the uuid the service gives an igroup it creates.
\<close>

record server =
  store :: "igroup list"
  calls :: "call list"

record service =
  fault :: "call \<Rightarrow> string option"
  new_uuid :: "igroup list \<Rightarrow> string"

definition issue :: "service \<Rightarrow> call \<Rightarrow> server \<Rightarrow> string + server" where
  "issue svc c s =
     (case fault svc c of
        Some e \<Rightarrow> Inl e
      | None \<Rightarrow> Inr \<lparr>store = effect (new_uuid svc (store s)) c (store s), calls = calls s @ [c]\<rparr>)"

subsection \<open>Adding and removing initiators\<close>

text \<open>
  The run's settings beside the parameters: REST or ZAPI, check mode, and the service.
\<close>

record settings =
  use_rest :: bool
  check_mode :: bool
  svc :: service

definition fail_on_error :: "string + 'a \<Rightarrow> error + 'a" where
  "fail_on_error r = (case r of Inl e \<Rightarrow> Inl (Rest_error e) | Inr x \<Rightarrow> Inr x)"

text \<open>
  \<open>modify_initiator\<close> sends a ZAPI call through \<open>self.server\<close>, an attribute that exists
  only when the module runs over ZAPI.
\<close>

definition modify_initiator ::
  "settings \<Rightarrow> parameters \<Rightarrow> string \<Rightarrow> string \<Rightarrow> server \<Rightarrow> error + server" where
  "modify_initiator cfg p initiator zapi s =
     (if use_rest cfg then Inl (Raise ''AttributeError'')
      else case issue (svc cfg) (Zapi_modify_initiator zapi (name p) initiator) s of
             Inl e \<Rightarrow> Inl (Zapi_error ''modifying igroup initiator'' (name p) e)
           | Inr s' \<Rightarrow> Inr s')"

definition add_initiators_rest ::
  "settings \<Rightarrow> string option \<Rightarrow> string list \<Rightarrow> server \<Rightarrow> error + server" where
  "add_initiators_rest cfg uuid xs s =
     fail_on_error (issue (svc cfg) (Rest_post_initiators uuid xs) s)"

fun add_each :: "settings \<Rightarrow> parameters \<Rightarrow> string list \<Rightarrow> server \<Rightarrow> error + server" where
  "add_each cfg p [] s = Inr s"
| "add_each cfg p (x # xs) s =
     (case modify_initiator cfg p x ''igroup-add'' s of
        Inl e \<Rightarrow> Inl e
      | Inr s' \<Rightarrow> add_each cfg p xs s')"

definition add_initiators ::
  "settings \<Rightarrow> parameters \<Rightarrow> string option \<Rightarrow> string list \<Rightarrow> server \<Rightarrow> error + server" where
  "add_initiators cfg p uuid current_initiators s =
     (case initiators p of
        None \<Rightarrow> Inr s
      | Some desired \<Rightarrow>
          if desired = [''''] then Inr s
          else
            let initiators_to_add =
                  filter (\<lambda>initiator. initiator \<notin> set current_initiators) desired
            in if use_rest cfg \<and> uuid \<noteq> None \<and> initiators_to_add \<noteq> []
               then add_initiators_rest cfg uuid initiators_to_add s
               else add_each cfg p initiators_to_add s)"

definition delete_initiator_rest ::
  "settings \<Rightarrow> string option \<Rightarrow> string \<Rightarrow> server \<Rightarrow> error + server" where
  "delete_initiator_rest cfg uuid initiator s =
     fail_on_error (issue (svc cfg) (Rest_delete_initiator uuid initiator) s)"

definition desired_or_empty :: "parameters \<Rightarrow> string list" where
  "desired_or_empty p = (case initiators p of None \<Rightarrow> [] | Some xs \<Rightarrow> xs)"

fun remove_initiators ::
  "settings \<Rightarrow> parameters \<Rightarrow> string option \<Rightarrow> string list \<Rightarrow> server \<Rightarrow> error + server" where
  "remove_initiators cfg p uuid [] s = Inr s"
| "remove_initiators cfg p uuid (initiator # rest) s =
     (if initiator \<notin> set (desired_or_empty p)
      then case (if use_rest cfg then delete_initiator_rest cfg uuid initiator s
                 else modify_initiator cfg p initiator ''igroup-remove'' s) of
             Inl e \<Rightarrow> Inl e
           | Inr s' \<Rightarrow> remove_initiators cfg p uuid rest s'
      else remove_initiators cfg p uuid rest s)"

subsection \<open>Reading an igroup\<close>

text \<open>
  A record of the REST reply: a Python dictionary whose keys may be missing. The query asks
  for these fields only; \<open>rec_svm_name\<close> is \<open>igroup['svm']['name']\<close>, and an initiator
  is a dictionary that may lack its \<open>name\<close>. The dictionary with no key is the empty one.
\<close>

record rest_record =
  rec_name :: "string option"
  rec_uuid :: "string option"
  rec_svm_name :: "string option"
  rec_os_type :: "string option"
  rec_protocol :: "string option"
  rec_initiators :: "string option list option"

record rest_response =
  num_records :: nat
  records :: "rest_record list"

definition empty_record :: rest_record where
  "empty_record = \<lparr>rec_name = None, rec_uuid = None, rec_svm_name = None, rec_os_type = None,
                    rec_protocol = None, rec_initiators = None\<rparr>"

text \<open>
  Modelled from the spec: \<open>rest_response_helpers.check_for_0_or_1_records\<close> is not among
  the source files. As its name and its use in \<open>get_igroup_rest\<close> say: an error of the call
  stays an error, zero records are no record and no error (the resource is absent), one
  record is that record, and anything else is an error.
\<close>

definition check_for_0_or_1_records ::
  "rest_response option \<times> string option \<Rightarrow> rest_record option \<times> string option" where
  "check_for_0_or_1_records reply =
     (case reply of
        (response, Some e) \<Rightarrow> (None, Some e)
      | (None, None) \<Rightarrow> (None, Some ''no response'')
      | (Some r, None) \<Rightarrow>
          if num_records r = 0 then (None, None)
          else if num_records r \<noteq> 1 then (None, Some ''unexpected response'')
          else (case records r of
                  [] \<Rightarrow> (None, Some ''unexpected response'')
                | x # xs \<Rightarrow> (Some x, None)))"

fun initiator_names :: "string option list \<Rightarrow> error + string list" where
  "initiator_names [] = Inr []"
| "initiator_names (None # items) = Inl (Raise ''KeyError'')"
| "initiator_names (Some n # items) =
     (case initiator_names items of Inl e \<Rightarrow> Inl e | Inr ns \<Rightarrow> Inr (n # ns))"

definition get_igroup_rest ::
  "rest_response option \<times> string option \<Rightarrow> error + pydict option" where
  "get_igroup_rest reply =
     (case check_for_0_or_1_records reply of
        (igroup, Some error) \<Rightarrow> Inl (Rest_error error)
      | (None, None) \<Rightarrow> Inr None
      | (Some igroup, None) \<Rightarrow>
          if igroup = empty_record then Inr None
          else
            (case (rec_name igroup, rec_uuid igroup, rec_svm_name igroup, rec_os_type igroup,
                   rec_protocol igroup) of
               (Some n, Some u, Some v, Some os, Some ty) \<Rightarrow>
                 (case (case rec_initiators igroup of
                          None \<Rightarrow> Inr []
                        | Some items \<Rightarrow> initiator_names items) of
                    Inl e \<Rightarrow> Inl e
                  | Inr ns \<Rightarrow>
                      Inr (Some [(''name'', VStr n), (''uuid'', VStr u), (''vserver'', VStr v),
                                 (''os_type'', VStr os), (''initiator_group_type'', VStr ty),
                                 (''initiators'', VList ns)]))
             | _ \<Rightarrow> Inl Unexpected_igroup_body))"

text \<open>
  The reply to the ZAPI \<open>igroup-get-iter\<close>, as far as \<open>get_igroup\<close> reads it: the content
  of \<open>num-records\<close> if there is one, the initiator names of the first igroup if it has an
  \<open>initiators\<close> child, and the contents \<open>get_child_content\<close> finds for the four attribute
  names. The call itself may fail with an \<open>NaApiError\<close>.
\<close>

record zapi_result =
  z_num_records :: "nat option"
  z_initiators :: "string list option"
  z_content :: "(string \<times> string) list"

definition zapi_to_params :: "(string \<times> string) list" where
  "zapi_to_params =
     [(''vserver'', ''vserver''), (''initiator-group-os-type'', ''os_type''),
      (''initiator-group-portset-name'', ''bind_portset''),
      (''initiator-group-type'', ''initiator_group_type'')]"

fun read_attributes :: "(string \<times> string) list \<Rightarrow> (string \<times> string) list \<Rightarrow> pydict" where
  "read_attributes content [] = []"
| "read_attributes content ((attr, param) # rest) =
     (case map_of content attr of
        None \<Rightarrow> read_attributes content rest
      | Some v \<Rightarrow> (param, VStr v) # read_attributes content rest)"

definition get_igroup_zapi :: "parameters \<Rightarrow> string + zapi_result \<Rightarrow> error + pydict option" where
  "get_igroup_zapi p reply =
     (case reply of
        Inl e \<Rightarrow> Inl (Zapi_error ''fetching igroup info'' (name p) e)
      | Inr result \<Rightarrow>
          (case z_num_records result of
             None \<Rightarrow> Inr None
           | Some n \<Rightarrow>
               if n \<ge> 1
               then Inr (Some ((''initiators'',
                                 VList (case z_initiators result of None \<Rightarrow> [] | Some ns \<Rightarrow> ns))
                               # read_attributes (z_content result) zapi_to_params))
               else Inr None))"

text \<open>
  The environment's side of a read: what the remote system answers for a name, from the
  igroups it holds. An igroup without initiators has no \<open>initiators\<close> entry. In a ZAPI
  reply the attributes of an igroup (its vserver, os type, portset and type) are children
  of \<open>initiator-group-info\<close>; \<open>attributes-list\<close>, where \<open>get_igroup\<close> looks them up, has
  no child of these names, so its content is empty.
\<close>

definition to_rest_record :: "parameters \<Rightarrow> igroup \<Rightarrow> rest_record" where
  "to_rest_record p g =
     \<lparr>rec_name = Some (ig_name g), rec_uuid = Some (ig_uuid g), rec_svm_name = Some (vserver p),
      rec_os_type = ig_os_type g, rec_protocol = ig_protocol g,
      rec_initiators = (if ig_initiators g = [] then None else Some (map Some (ig_initiators g)))\<rparr>"

definition rest_get :: "parameters \<Rightarrow> string \<Rightarrow> server \<Rightarrow> rest_response option \<times> string option" where
  "rest_get p n s =
     (let found = filter (\<lambda>g. ig_name g = n) (store s)
      in (Some \<lparr>num_records = length found, records = map (to_rest_record p) found\<rparr>, None))"

definition zapi_get :: "parameters \<Rightarrow> string \<Rightarrow> server \<Rightarrow> string + zapi_result" where
  "zapi_get p n s =
     (case filter (\<lambda>g. ig_name g = n) (store s) of
        [] \<Rightarrow> Inr \<lparr>z_num_records = Some 0, z_initiators = None, z_content = []\<rparr>
      | g # gs \<Rightarrow>
          Inr \<lparr>z_num_records = Some (Suc (length gs)),
               z_initiators = (if ig_initiators g = [] then None else Some (ig_initiators g)),
               z_content = []\<rparr>)"

definition get_igroup :: "settings \<Rightarrow> parameters \<Rightarrow> string \<Rightarrow> server \<Rightarrow> error + pydict option" where
  "get_igroup cfg p n s =
     (if use_rest cfg then get_igroup_rest (rest_get p n s)
      else get_igroup_zapi p (zapi_get p n s))"

subsection \<open>Create, delete, rename and modify\<close>

definition create_igroup_rest :: "settings \<Rightarrow> parameters \<Rightarrow> server \<Rightarrow> error + server" where
  "create_igroup_rest cfg p s =
     (case os_type p of
        None \<Rightarrow> Inl (Raise ''KeyError'')
      | Some os \<Rightarrow>
          fail_on_error
            (issue (svc cfg)
               (Rest_post_igroup
                  \<lparr>body_name = name p, body_os_type = os, body_svm = vserver p,
                   body_protocol = initiator_group_type p, body_portset = bind_portset p,
                   body_initiators = initiators p\<rparr>) s))"

definition create_igroup :: "settings \<Rightarrow> parameters \<Rightarrow> server \<Rightarrow> error + server" where
  "create_igroup cfg p s =
     (if use_rest cfg then create_igroup_rest cfg p s
      else case issue (svc cfg)
                  (Zapi_igroup_create (name p) (os_type p) (initiator_group_type p)
                     (bind_portset p)) s of
             Inl e \<Rightarrow> Inl (Zapi_error ''provisioning igroup'' (name p) e)
           | Inr s' \<Rightarrow> add_initiators cfg p None [] s')"

definition rest_modify_zapi_to_rest :: "(string \<times> string) list" where
  "rest_modify_zapi_to_rest =
     [(''bind_portset'', ''portset''), (''name'', ''name''), (''os_type'', ''os_type'')]"

fun rest_body :: "pydict \<Rightarrow> error + pydict" where
  "rest_body [] = Inr []"
| "rest_body ((option, v) # modify) =
     (case map_of rest_modify_zapi_to_rest option of
        None \<Rightarrow> Inl (Option_not_supported_in_rest option)
      | Some k \<Rightarrow> (case rest_body modify of Inl e \<Rightarrow> Inl e | Inr body \<Rightarrow> Inr ((k, v) # body)))"

definition modify_igroup_rest ::
  "settings \<Rightarrow> string option \<Rightarrow> pydict \<Rightarrow> server \<Rightarrow> error + server" where
  "modify_igroup_rest cfg uuid modify s =
     (case rest_body modify of
        Inl e \<Rightarrow> Inl e
      | Inr body \<Rightarrow>
          if body \<noteq> [] then fail_on_error (issue (svc cfg) (Rest_patch_igroup uuid body) s)
          else Inr s)"

definition delete_igroup_rest ::
  "settings \<Rightarrow> parameters \<Rightarrow> string option \<Rightarrow> server \<Rightarrow> error + server" where
  "delete_igroup_rest cfg p uuid s =
     fail_on_error (issue (svc cfg) (Rest_delete_igroup uuid (force_remove_initiator p)) s)"

definition delete_igroup ::
  "settings \<Rightarrow> parameters \<Rightarrow> string option \<Rightarrow> server \<Rightarrow> error + server" where
  "delete_igroup cfg p uuid s =
     (if use_rest cfg then delete_igroup_rest cfg p uuid s
      else case issue (svc cfg) (Zapi_igroup_destroy (name p) (force_remove_initiator p)) s of
             Inl e \<Rightarrow> Inl (Zapi_error ''deleting igroup'' (name p) e)
           | Inr s' \<Rightarrow> Inr s')"

definition rename_igroup :: "settings \<Rightarrow> parameters \<Rightarrow> server \<Rightarrow> error + server" where
  "rename_igroup cfg p s =
     (if use_rest cfg then Inl Rename_internal_error
      else case from_name p of
             None \<Rightarrow> Inl (Raise ''KeyError'')
           | Some f \<Rightarrow>
               (case issue (svc cfg) (Zapi_igroup_rename f (name p)) s of
                  Inl e \<Rightarrow> Inl (Zapi_error ''renaming igroup'' (name p) e)
                | Inr s' \<Rightarrow> Inr s'))"

definition pop :: "string \<Rightarrow> pydict \<Rightarrow> pydict" where
  "pop k d = filter (\<lambda>kv. fst kv \<noteq> k) d"

definition report_error_in_modify :: "pydict \<Rightarrow> string \<Rightarrow> error + unit" where
  "report_error_in_modify modify ctxt =
     (if modify \<noteq> [] then Inl (Modify_not_supported modify ctxt) else Inr ())"

definition validate_modify :: "settings \<Rightarrow> pydict option \<Rightarrow> error + unit" where
  "validate_modify cfg modify =
     (case modify of
        None \<Rightarrow> Inr ()
      | Some m \<Rightarrow>
          if m = [] then Inr ()
          else
            let modify_local = pop ''initiators'' m
            in if \<not> use_rest cfg then report_error_in_modify modify_local ''ZAPI''
               else report_error_in_modify
                      (filter (\<lambda>kv. map_of rest_modify_zapi_to_rest (fst kv) = None) modify_local)
                      ''REST'')"

definition autosupport_log :: "settings \<Rightarrow> server \<Rightarrow> server" where
  "autosupport_log cfg s = (if \<not> use_rest cfg then s\<lparr>calls := calls s @ [Ems_log_event]\<rparr> else s)"

subsection \<open>apply\<close>

text \<open>
  What \<open>apply\<close> has decided when it reaches its last block: the action, the rename flag
  (\<open>None\<close>, true or false), the modify dictionary (\<open>None\<close> or a dictionary), the record it
  will report as current, the uuid, and the helper with its \<open>changed\<close> flag.
\<close>

record decision =
  d_cd_action :: "string option"
  d_rename :: "bool option"
  d_modify :: "pydict option"
  d_current :: "pydict option"
  d_uuid :: "string option"
  d_helper :: na_helper

definition igroup_is_rename_action ::
  "settings \<Rightarrow> parameters \<Rightarrow> string \<Rightarrow> na_helper \<Rightarrow> string option \<Rightarrow> pydict option \<Rightarrow> server
     \<Rightarrow> error + (string option \<times> bool option \<times> pydict option \<times> na_helper)" where
  "igroup_is_rename_action cfg p f h action cur s =
     (case get_igroup cfg p f s of
        Inl e \<Rightarrow> Inl e
      | Inr old \<Rightarrow>
          (case is_rename_action h old cur of
             (None, h') \<Rightarrow> Inl (From_name_not_found (from_name p))
           | (Some True, h') \<Rightarrow> Inr (None, Some True, old, h')
           | (Some False, h') \<Rightarrow> Inr (action, Some False, cur, h')))"

definition current_uuid :: "settings \<Rightarrow> pydict option \<Rightarrow> error + string option" where
  "current_uuid cfg cur =
     (case cur of
        None \<Rightarrow> Inr None
      | Some c \<Rightarrow>
          if c \<noteq> [] \<and> use_rest cfg
          then (case map_of c ''uuid'' of Some (VStr u) \<Rightarrow> Inr (Some u) | _ \<Rightarrow> Inl (Raise ''KeyError''))
          else Inr None)"

text \<open>
  \<open>apply\<close> up to its last block, in the order of the source: the igroup \<open>name\<close> is read
  and the helper picks create, delete or nothing; a create with a non-empty \<open>from_name\<close>
  is looked at as a rename (\<open>rename_step\<close>); when nothing is to be created or deleted and the
  state is "present", the helper compares the fields (\<open>modify_step\<close>: REST renames through
  modify, ZAPI takes \<open>name\<close> out of it); then the uuid is taken from the record read over
  REST, a REST create without \<open>os_type\<close> is refused, and the modify is validated.
\<close>

definition rename_step ::
  "settings \<Rightarrow> parameters \<Rightarrow> na_helper \<Rightarrow> string option \<Rightarrow> pydict option \<Rightarrow> server
     \<Rightarrow> error + (string option \<times> bool option \<times> pydict option \<times> na_helper)" where
  "rename_step cfg p h action cur s =
     (case from_name p of
        None \<Rightarrow> Inr (action, None, cur, h)
      | Some f \<Rightarrow>
          if action = Some ''create'' \<and> f \<noteq> []
          then igroup_is_rename_action cfg p f h action cur s
          else Inr (action, None, cur, h))"

definition modify_step ::
  "settings \<Rightarrow> parameters \<Rightarrow> na_helper \<Rightarrow> string option \<Rightarrow> bool option \<Rightarrow> pydict option
     \<Rightarrow> pydict option \<times> bool option \<times> na_helper" where
  "modify_step cfg p h action ren cur =
     (if action = None \<and> state p = ''present''
      then (case get_modified_attributes h cur (params_dict p) of
              (m, h') \<Rightarrow>
                if use_rest cfg then (Some m, Some False, h')
                else (Some (pop ''name'' m), ren, h'))
      else (None, ren, h))"

definition decide :: "settings \<Rightarrow> parameters \<Rightarrow> server \<Rightarrow> error + decision" where
  "decide cfg p s =
     (case get_igroup cfg p (name p) s of
        Inl e \<Rightarrow> Inl e
      | Inr cur0 \<Rightarrow>
          (case get_cd_action new_helper cur0 (params_dict p) of
             (action0, h0) \<Rightarrow>
               (case rename_step cfg p h0 action0 cur0 s of
                  Inl e \<Rightarrow> Inl e
                | Inr (action, ren0, cur, h1) \<Rightarrow>
                    (case modify_step cfg p h1 action ren0 cur of
                       (m, ren, h) \<Rightarrow>
                         (case current_uuid cfg cur of
                            Inl e \<Rightarrow> Inl e
                          | Inr u \<Rightarrow>
                              if action = Some ''create'' \<and> use_rest cfg \<and> os_type p = None
                              then Inl Os_type_required
                              else (case validate_modify cfg m of
                                      Inl e \<Rightarrow> Inl e
                                    | Inr ok \<Rightarrow>
                                        Inr \<lparr>d_cd_action = action, d_rename = ren,
                                             d_modify = m, d_current = cur,
                                             d_uuid = u, d_helper = h\<rparr>))))))"

text \<open>What \<open>exit_json\<close> reports.\<close>

record exit_igroup =
  exit_changed :: bool
  exit_current :: "pydict option"
  exit_modify :: "pydict option"

definition initiators_of :: "pydict option \<Rightarrow> error + string list" where
  "initiators_of cur =
     (case cur of
        None \<Rightarrow> Inl (Raise ''TypeError'')
      | Some c \<Rightarrow>
          (case map_of c ''initiators'' of
             Some (VList xs) \<Rightarrow> Inr xs
           | _ \<Rightarrow> Inl (Raise ''KeyError'')))"

definition execute :: "settings \<Rightarrow> parameters \<Rightarrow> decision \<Rightarrow> server \<Rightarrow> error + pydict option \<times> server" where
  "execute cfg p d s =
     (if changed (d_helper d) \<and> \<not> check_mode cfg
      then
        (case (if d_rename d = Some True then rename_igroup cfg p s
               else if d_cd_action d = Some ''create'' then create_igroup cfg p s
               else if d_cd_action d = Some ''delete'' then delete_igroup cfg p (d_uuid d) s
               else Inr s) of
           Inl e \<Rightarrow> Inl e
         | Inr s1 \<Rightarrow>
             (case d_modify d of
                None \<Rightarrow> Inr (None, s1)
              | Some m \<Rightarrow>
                  if m = [] then Inr (Some m, s1)
                  else
                    (case initiators_of (d_current d) of
                       Inl e \<Rightarrow> Inl e
                     | Inr xs \<Rightarrow>
                         (case remove_initiators cfg p (d_uuid d) xs s1 of
                            Inl e \<Rightarrow> Inl e
                          | Inr s2 \<Rightarrow>
                              (case add_initiators cfg p (d_uuid d) xs s2 of
                                 Inl e \<Rightarrow> Inl e
                               | Inr s3 \<Rightarrow>
                                   let m' = pop ''initiators'' m
                                   in if m' \<noteq> []
                                      then (case modify_igroup_rest cfg (d_uuid d) m' s3 of
                                              Inl e \<Rightarrow> Inl e
                                            | Inr s4 \<Rightarrow> Inr (Some m', s4))
                                      else Inr (Some m', s3))))))
      else Inr (d_modify d, s))"

definition apply_igroup :: "settings \<Rightarrow> parameters \<Rightarrow> server \<Rightarrow> error + exit_igroup \<times> server" where
  "apply_igroup cfg p s =
     (case decide cfg p (autosupport_log cfg s) of
        Inl e \<Rightarrow> Inl e
      | Inr d \<Rightarrow>
          (case execute cfg p d (autosupport_log cfg s) of
             Inl e \<Rightarrow> Inl e
           | Inr (m, s') \<Rightarrow>
               Inr (\<lparr>exit_changed = changed (d_helper d), exit_current = d_current d,
                     exit_modify = m\<rparr>, s')))"

subsection \<open>Sanitizing the desired initiators\<close>








section \<open>azure_rm_netapp_volume\<close>

subsection \<open>Parameters and the volume object\<close>

text \<open>
  The module's argument specification. \<open>volume_state\<close> and \<open>volume_name\<close> are the parameters
  \<open>state\<close> and \<open>name\<close>, and \<open>size_gib\<close> is \<open>size\<close>, an integer of any magnitude.
\<close>

record volume_parameters =
  resource_group :: string
  volume_name :: string
  file_path :: "string option"
  pool_name :: string
  account_name :: string
  location :: "string option"
  volume_state :: string
  subnet_name :: "string option"
  virtual_network :: "string option"
  size_gib :: "int option"
  vnet_resource_group_for_subnet :: "string option"
  service_level :: "string option"
  protocol_types :: "string list option"

definition volume_params_dict :: "volume_parameters \<Rightarrow> pydict" where
  "volume_params_dict p =
     [(''resource_group'', VStr (resource_group p)), (''name'', VStr (volume_name p))]
     @ opt_entry ''file_path'' VStr (file_path p)
     @ [(''pool_name'', VStr (pool_name p)), (''account_name'', VStr (account_name p))]
     @ opt_entry ''location'' VStr (location p)
     @ [(''state'', VStr (volume_state p))]
     @ opt_entry ''subnet_name'' VStr (subnet_name p)
     @ opt_entry ''virtual_network'' VStr (virtual_network p)
     @ opt_entry ''size'' VInt (size_gib p)
     @ opt_entry ''vnet_resource_group_for_subnet'' VStr (vnet_resource_group_for_subnet p)
     @ opt_entry ''service_level'' VStr (service_level p)
     @ opt_entry ''protocol_types'' VList (protocol_types p)"

definition ONE_GIB :: int where
  "ONE_GIB = 1073741824"

record export_policy_rule =
  rule_index :: int
  allowed_clients :: string
  unix_read_write :: bool
  cifs :: bool
  nfsv3 :: bool
  nfsv41 :: bool

text \<open>The body of a create request, and the volume object the SDK returns on a read.\<close>

record volume_body =
  body_location :: string
  body_creation_token :: string
  body_subnet_id :: string
  body_protocol_types :: "string list option"
  body_service_level :: "string option"
  body_usage_threshold :: "int option"
  body_export_policy :: "export_policy_rule list option"

record mount_target =
  ip_address :: "string option"

record volume =
  creation_token :: "string option"
  usage_threshold :: "int option"
  volume_service_level :: "string option"
  volume_protocol_types :: "string list option"
  mount_targets :: "mount_target list option"

subsection \<open>The Azure service\<close>

text \<open>
  The environment: the volume of that name if there is one, and the calls received. A read
  raises \<open>CloudError\<close> or returns the volume object. \<open>provision\<close> is the volume the service
  holds once it has accepted a create request, \<open>azure_fault\<close> its answer to a call.
\<close>

datatype azure_call = Create_or_update volume_body | Delete_volume

datatype 'a sdk_result = CloudError string | Returned 'a

record azure =
  held :: "volume option"
  received :: "azure_call list"

record azure_settings =
  azure_check_mode :: bool
  subscription_id :: string
  provision :: "volume_body \<Rightarrow> volume"
  azure_fault :: "azure_call \<Rightarrow> string option"

definition volumes_get :: "azure \<Rightarrow> volume sdk_result" where
  "volumes_get s = (case held s of None \<Rightarrow> CloudError ''ResourceNotFound'' | Some v \<Rightarrow> Returned v)"

definition azure_issue :: "azure_settings \<Rightarrow> azure_call \<Rightarrow> azure \<Rightarrow> string + azure" where
  "azure_issue cfg c s =
     (case azure_fault cfg c of
        Some e \<Rightarrow> Inl e
      | None \<Rightarrow>
          Inr \<lparr>held = (case c of Create_or_update b \<Rightarrow> Some (provision cfg b) | Delete_volume \<Rightarrow> None),
               received = received s @ [c]\<rparr>)"

subsection \<open>The module\<close>

definition get_azure_netapp_volume :: "volume sdk_result \<Rightarrow> volume option" where
  "get_azure_netapp_volume volume_get =
     (case volume_get of CloudError e \<Rightarrow> None | Returned v \<Rightarrow> Some v)"

definition get_export_policy_rules :: "volume_parameters \<Rightarrow> export_policy_rule list option" where
  "get_export_policy_rules p =
     (case protocol_types p of
        None \<Rightarrow> None
      | Some given \<Rightarrow>
          let ptypes = map lower given
          in if ''nfsv4.1'' \<in> set ptypes
             then let ptypes = ptypes @ [''nfsv41'']
                  in Some [\<lparr>rule_index = 1, allowed_clients = ''0.0.0.0/0'', unix_read_write = True,
                             cifs = (''cifs'' \<in> set ptypes), nfsv3 = (''nfsv3'' \<in> set ptypes),
                             nfsv41 = (''nfsv41'' \<in> set ptypes)\<rparr>]
             else None)"

definition volume_subnet_id :: "azure_settings \<Rightarrow> volume_parameters \<Rightarrow> string \<Rightarrow> string \<Rightarrow> string" where
  "volume_subnet_id cfg p vnet subnet =
     ''/subscriptions/'' @ subscription_id cfg
     @ ''/resourceGroups/''
     @ (case vnet_resource_group_for_subnet p of None \<Rightarrow> resource_group p | Some g \<Rightarrow> g)
     @ ''/providers/Microsoft.Network/virtualNetworks/'' @ vnet @ ''/subnets/'' @ subnet"

definition create_azure_netapp_volume ::
  "azure_settings \<Rightarrow> volume_parameters \<Rightarrow> azure \<Rightarrow> error + azure" where
  "create_azure_netapp_volume cfg p s =
     (case (virtual_network p, subnet_name p, location p, file_path p) of
        (Some vnet, Some subnet, Some loc, Some path) \<Rightarrow>
          (case azure_issue cfg
                  (Create_or_update
                     \<lparr>body_location = loc, body_creation_token = path,
                      body_subnet_id = volume_subnet_id cfg p vnet subnet,
                      body_protocol_types = protocol_types p,
                      body_service_level = service_level p,
                      body_usage_threshold =
                        (case size_gib p of None \<Rightarrow> None | Some n \<Rightarrow> Some (n * ONE_GIB)),
                      body_export_policy = get_export_policy_rules p\<rparr>) s of
             Inl e \<Rightarrow> Inl (Volume_create_error (volume_name p) e)
           | Inr s' \<Rightarrow> Inr s')
      | _ \<Rightarrow> Inl (Raise ''KeyError''))"

definition delete_azure_netapp_volume ::
  "azure_settings \<Rightarrow> volume_parameters \<Rightarrow> azure \<Rightarrow> error + azure" where
  "delete_azure_netapp_volume cfg p s =
     (case azure_issue cfg Delete_volume s of
        Inl e \<Rightarrow> Inl (Volume_delete_error (volume_name p) e)
      | Inr s' \<Rightarrow> Inr s')"

text \<open>\<open>'%s' % x\<close>: Python writes a missing value as \<open>None\<close>.\<close>

definition percent_s :: "string option \<Rightarrow> string" where
  "percent_s v = (case v of None \<Rightarrow> ''None'' | Some s \<Rightarrow> s)"

record exit_volume =
  volume_changed :: bool
  msg :: string

text \<open>
  \<open>exec_module\<close>, first block: the volume is read, the helper picks the action, and out of
  check mode the create or the delete is sent. The result is the helper's \<open>changed\<close> flag
  and the service after the calls.
\<close>

definition reconcile ::
  "azure_settings \<Rightarrow> volume_parameters \<Rightarrow> azure \<Rightarrow> error + bool \<times> azure" where
  "reconcile cfg p s =
     (let current = get_azure_netapp_volume (volumes_get s)
      in case get_cd_action new_helper current (volume_params_dict p) of
           (action, h) \<Rightarrow>
             (case (if changed h
                    then if azure_check_mode cfg then Inr s
                         else if action = Some ''create'' then create_azure_netapp_volume cfg p s
                         else if action = Some ''delete'' then delete_azure_netapp_volume cfg p s
                         else Inr s
                    else Inr s) of
                Inl e \<Rightarrow> Inl e
              | Inr s' \<Rightarrow> Inr (changed h, s')))"

text \<open>
  The last block of \<open>exec_module\<close>: with state "present" the volume is read again and the
  mount path is made from it.
\<close>

definition mount_path :: "volume_parameters \<Rightarrow> azure \<Rightarrow> error + string" where
  "mount_path p s =
     (if volume_state p = ''present''
      then (case get_azure_netapp_volume (volumes_get s) of
              None \<Rightarrow> Inl (Volume_not_found (volume_name p))
            | Some return_info \<Rightarrow>
                (case mount_targets return_info of
                   None \<Rightarrow> Inl (Mount_targets_not_found (volume_name p))
                 | Some [] \<Rightarrow> Inl (Raise ''IndexError'')
                 | Some (t # ts) \<Rightarrow>
                     Inr (percent_s (ip_address t) @ '':/'' @ percent_s (creation_token return_info))))
      else Inr '''')"

definition exec_module ::
  "azure_settings \<Rightarrow> volume_parameters \<Rightarrow> azure \<Rightarrow> error + exit_volume \<times> azure" where
  "exec_module cfg p s =
     (case reconcile cfg p s of
        Inl e \<Rightarrow> Inl e
      | Inr (chg, s') \<Rightarrow>
          (case mount_path p s' of
             Inl e \<Rightarrow> Inl e
           | Inr return_info \<Rightarrow> Inr (\<lparr>volume_changed = chg, msg = return_info\<rparr>, s')))"

section \<open>Vocabulary for the statements\<close>

text \<open>
  The call that removes one initiator and the calls that add a list of initiators, as the
  two transports send them; the igroups a call of the run addresses; an igroup without
  some initiators.
\<close>

definition removal :: "settings \<Rightarrow> parameters \<Rightarrow> string option \<Rightarrow> string \<Rightarrow> call" where
  "removal cfg p uuid x =
     (if use_rest cfg then Rest_delete_initiator uuid x
      else Zapi_modify_initiator ''igroup-remove'' (name p) x)"

definition additions :: "settings \<Rightarrow> parameters \<Rightarrow> string option \<Rightarrow> string list \<Rightarrow> call list" where
  "additions cfg p uuid xs =
     (if use_rest cfg \<and> uuid \<noteq> None then (if xs = [] then [] else [Rest_post_initiators uuid xs])
      else map (Zapi_modify_initiator ''igroup-add'' (name p)) xs)"

definition addressed :: "settings \<Rightarrow> parameters \<Rightarrow> string option \<Rightarrow> igroup \<Rightarrow> bool" where
  "addressed cfg p uuid g =
     (if use_rest cfg then Some (ig_uuid g) = uuid else ig_name g = name p)"

definition without :: "string list \<Rightarrow> igroup \<Rightarrow> igroup" where
  "without xs g = g\<lparr>ig_initiators := filter (\<lambda>i. i \<notin> set xs) (ig_initiators g)\<rparr>"

text \<open>
  The modify dictionary of a run that compares the observed record \<open>c\<close> with the
  parameters: over REST all changed fields, over ZAPI all but \<open>name\<close>.
\<close>

definition compared :: "settings \<Rightarrow> parameters \<Rightarrow> pydict \<Rightarrow> pydict" where
  "compared cfg p c =
     (if use_rest cfg then changed_fields c (params_dict p)
      else pop ''name'' (changed_fields c (params_dict p)))"

text \<open>
  The remote system after a list of calls it accepted, and the relation between two states
  of it that a piece of the run which sent exactly these calls leaves.
\<close>

fun replay :: "service \<Rightarrow> call list \<Rightarrow> igroup list \<Rightarrow> igroup list" where
  "replay sv [] gs = gs"
| "replay sv (c # cs) gs = replay sv cs (effect (new_uuid sv gs) c gs)"

definition sent :: "service \<Rightarrow> server \<Rightarrow> call list \<Rightarrow> server \<Rightarrow> bool" where
  "sent sv s cs s' = (calls s' = calls s @ cs \<and> store s' = replay sv cs (store s))"

text \<open>
  The calls of the last block of \<open>apply\<close> for a decision: the initiators to add (none when
  the desired list is missing or is the single empty string), the calls of one modify of
  the initiators, the call or calls of the rename, create or delete, and the patch.
\<close>

definition to_add :: "parameters \<Rightarrow> string list \<Rightarrow> string list" where
  "to_add p cur =
     (case initiators p of
        None \<Rightarrow> []
      | Some xs \<Rightarrow> if xs = [''''] then [] else filter (\<lambda>x. x \<notin> set cur) xs)"

definition initiator_calls ::
  "settings \<Rightarrow> parameters \<Rightarrow> string option \<Rightarrow> string list \<Rightarrow> call list" where
  "initiator_calls cfg p u cur =
     map (removal cfg p u) (filter (\<lambda>x. x \<notin> set (desired_or_empty p)) cur)
     @ additions cfg p u (to_add p cur)"

definition first_calls :: "settings \<Rightarrow> parameters \<Rightarrow> decision \<Rightarrow> call list" where
  "first_calls cfg p d =
     (if d_rename d = Some True
      then (case from_name p of None \<Rightarrow> [] | Some f \<Rightarrow> [Zapi_igroup_rename f (name p)])
      else if d_cd_action d = Some ''create''
      then (if use_rest cfg
            then (case os_type p of
                    None \<Rightarrow> []
                  | Some os \<Rightarrow>
                      [Rest_post_igroup
                         \<lparr>body_name = name p, body_os_type = os, body_svm = vserver p,
                          body_protocol = initiator_group_type p, body_portset = bind_portset p,
                          body_initiators = initiators p\<rparr>])
            else Zapi_igroup_create (name p) (os_type p) (initiator_group_type p) (bind_portset p)
                 # additions cfg p None (to_add p []))
      else if d_cd_action d = Some ''delete''
      then (if use_rest cfg then [Rest_delete_igroup (d_uuid d) (force_remove_initiator p)]
            else [Zapi_igroup_destroy (name p) (force_remove_initiator p)])
      else [])"

definition patch_calls :: "string option \<Rightarrow> pydict \<Rightarrow> call list" where
  "patch_calls u m =
     (case rest_body (pop ''initiators'' m) of
        Inl e \<Rightarrow> []
      | Inr body \<Rightarrow> if body = [] then [] else [Rest_patch_igroup u body])"

definition modify_calls :: "settings \<Rightarrow> parameters \<Rightarrow> decision \<Rightarrow> call list" where
  "modify_calls cfg p d =
     (case d_modify d of
        None \<Rightarrow> []
      | Some m \<Rightarrow>
          if m = [] then []
          else (case initiators_of (d_current d) of
                  Inl e \<Rightarrow> []
                | Inr cur \<Rightarrow> initiator_calls cfg p (d_uuid d) cur @ patch_calls (d_uuid d) m))"

definition planned :: "settings \<Rightarrow> parameters \<Rightarrow> decision \<Rightarrow> call list" where
  "planned cfg p d =
     (if changed (d_helper d) \<and> \<not> check_mode cfg
      then first_calls cfg p d @ modify_calls cfg p d
      else [])"

text \<open>
  The calls that neither create nor delete an igroup, and what such a call does to one
  igroup of the remote system.
\<close>

fun keeps :: "call \<Rightarrow> bool" where
  "keeps (Rest_post_igroup b) = False"
| "keeps (Rest_delete_igroup u force) = False"
| "keeps (Zapi_igroup_create n os ty ps) = False"
| "keeps (Zapi_igroup_destroy n force) = False"
| "keeps c = True"

fun touch :: "call \<Rightarrow> igroup \<Rightarrow> igroup" where
  "touch (Rest_post_initiators u xs) g = (if Some (ig_uuid g) = u then add_members xs g else g)"
| "touch (Rest_delete_initiator u x) g = (if Some (ig_uuid g) = u then remove_member x g else g)"
| "touch (Rest_patch_igroup u body) g = (if Some (ig_uuid g) = u then patch body g else g)"
| "touch (Zapi_modify_initiator zapi n x) g =
     (if ig_name g = n
      then (if zapi = ''igroup-add'' then add_members [x] g
            else if zapi = ''igroup-remove'' then remove_member x g else g)
      else g)"
| "touch (Zapi_igroup_rename old n) g = (if ig_name g = old then g\<lparr>ig_name := n\<rparr> else g)"
| "touch c g = g"

text \<open>
  The record that a read gives for an igroup of the remote system, and the igroup that a
  read of a name concerns: over REST the only one of that name, over ZAPI the first.
\<close>

definition observed :: "settings \<Rightarrow> parameters \<Rightarrow> igroup \<Rightarrow> pydict" where
  "observed cfg p g =
     (if use_rest cfg
      then [(''name'', VStr (ig_name g)), (''uuid'', VStr (ig_uuid g)),
            (''vserver'', VStr (vserver p))]
           @ opt_entry ''os_type'' VStr (ig_os_type g)
           @ opt_entry ''initiator_group_type'' VStr (ig_protocol g)
           @ [(''initiators'', VList (ig_initiators g))]
      else [(''initiators'', VList (ig_initiators g))])"

definition readable :: "settings \<Rightarrow> string \<Rightarrow> igroup list \<Rightarrow> igroup \<Rightarrow> bool" where
  "readable cfg n gs g =
     (if use_rest cfg
      then filter (\<lambda>g. ig_name g = n) gs = [g] \<and> ig_os_type g \<noteq> None \<and> ig_protocol g \<noteq> None
      else (\<exists>more. filter (\<lambda>g. ig_name g = n) gs = g # more))"

text \<open>
  The entries of the modify dictionary, field by field. A string field is changed when the
  igroup has it, the playbook gives it and the two differ in lower case; the initiators
  are changed when the playbook gives a list that does not hold the same members as the
  igroup, each as often. \<open>differing\<close> is the dictionary for an igroup: over REST the
  name, the os type, the type and the initiators are compared, over ZAPI the initiators.
\<close>

definition field_change :: "string \<Rightarrow> string option \<Rightarrow> string option \<Rightarrow> pydict" where
  "field_change k seen wanted =
     (case seen of
        None \<Rightarrow> []
      | Some a \<Rightarrow>
          (case wanted of
             None \<Rightarrow> []
           | Some b \<Rightarrow> if lower a \<noteq> lower b then [(k, VStr b)] else []))"

definition initiators_change :: "string list \<Rightarrow> string list option \<Rightarrow> pydict" where
  "initiators_change seen wanted =
     (case wanted of
        None \<Rightarrow> []
      | Some xs \<Rightarrow> if mset seen \<noteq> mset xs then [(''initiators'', VList xs)] else [])"

definition differing :: "settings \<Rightarrow> parameters \<Rightarrow> igroup \<Rightarrow> pydict" where
  "differing cfg p g =
     (if use_rest cfg
      then field_change ''name'' (Some (ig_name g)) (Some (name p))
           @ field_change ''os_type'' (ig_os_type g) (os_type p)
           @ field_change ''initiator_group_type'' (ig_protocol g) (initiator_group_type p)
           @ initiators_change (ig_initiators g) (initiators p)
      else initiators_change (ig_initiators g) (initiators p))"

section \<open>Concrete runs\<close>

text \<open>A service that accepts every call, and the two transports out of check mode.\<close>

definition accepting :: service where
  "accepting = \<lparr>fault = (\<lambda>c. None), new_uuid = (\<lambda>gs. ''uuid-new'')\<rparr>"

definition over_zapi :: settings where
  "over_zapi = \<lparr>use_rest = False, check_mode = False, svc = accepting\<rparr>"

definition over_rest :: settings where
  "over_rest = \<lparr>use_rest = True, check_mode = False, svc = accepting\<rparr>"

definition ig1 :: igroup where
  "ig1 = \<lparr>ig_name = ''ig1'', ig_uuid = ''uuid-1'', ig_os_type = Some ''linux'',
          ig_protocol = Some ''iscsi'', ig_portset = None, ig_initiators = [''a'', ''b'']\<rparr>"

definition want :: "string list option \<Rightarrow> parameters" where
  "want xs = \<lparr>state = ''present'', name = ''ig1'', from_name = None, os_type = Some ''linux'',
              initiator_group_type = Some ''iscsi'', initiators = xs, vserver = ''vs1'',
              force_remove_initiator = False, bind_portset = None\<rparr>"

text \<open>An Azure service that accepts every call, out of check mode and in it.\<close>

definition provisioned :: "volume_body \<Rightarrow> volume" where
  "provisioned b =
     \<lparr>creation_token = Some (body_creation_token b), usage_threshold = body_usage_threshold b,
      volume_service_level = body_service_level b,
      volume_protocol_types = body_protocol_types b,
      mount_targets = Some [\<lparr>ip_address = Some ''10.0.0.4''\<rparr>]\<rparr>"

definition azure_run :: "bool \<Rightarrow> azure_settings" where
  "azure_run dry =
     \<lparr>azure_check_mode = dry, subscription_id = ''sub'', provision = provisioned,
      azure_fault = (\<lambda>c. None)\<rparr>"

definition vol_want :: "string \<Rightarrow> volume_parameters" where
  "vol_want st =
     \<lparr>resource_group = ''rg'', volume_name = ''vol1'', file_path = Some ''vol1'',
      pool_name = ''pool'', account_name = ''acct'', location = Some ''eastus'',
      volume_state = st, subnet_name = Some ''sn'', virtual_network = Some ''vnet'',
      size_gib = Some 200, vnet_resource_group_for_subnet = None,
      service_level = Some ''Premium'', protocol_types = None\<rparr>"

definition vol1 :: volume where
  "vol1 = \<lparr>creation_token = Some ''vol1'', usage_threshold = Some 107374182400,
           volume_service_level = Some ''Standard'', volume_protocol_types = Some [''NFSv3''],
           mount_targets = Some [\<lparr>ip_address = Some ''10.0.0.4''\<rparr>]\<rparr>"

text \<open>What the REST read of \<open>ig1\<close> gives, and a want of the initiators b and c.\<close>

definition ig1_seen :: pydict where
  "ig1_seen = [(''name'', VStr ''ig1''), (''uuid'', VStr ''uuid-1''), (''vserver'', VStr ''vs1''),
              (''os_type'', VStr ''linux''), (''initiator_group_type'', VStr ''iscsi''),
              (''initiators'', VList [''a'', ''b''])]"

definition calm :: server where
  "calm = \<lparr>store = [ig1], calls = []\<rparr>"

text \<open>
  A playbook that renames \<open>ig1\<close> to \<open>ig2\<close>, one that renames it to \<open>IG1\<close>, and what the
  ZAPI read of \<open>ig1\<close> gives.
\<close>

definition renaming :: parameters where
  "renaming = (want (Some [''a'', ''b'']))\<lparr>name := ''ig2'', from_name := Some ''ig1''\<rparr>"

definition renaming_case :: parameters where
  "renaming_case = (want (Some [''a'', ''b'']))\<lparr>name := ''IG1'', from_name := Some ''ig1''\<rparr>"

definition ig1_seen_zapi :: pydict where
  "ig1_seen_zapi = [(''initiators'', VList [''a'', ''b''])]"





section \<open>Initiators of an igroup\<close>

lemma issue_calls: "issue sv c s = Inr s' \<Longrightarrow> calls s' = calls s @ [c]"
  by (auto simp: issue_def split: option.splits)

lemma issue_store:
  "issue sv c s = Inr s' \<Longrightarrow> store s' = effect (new_uuid sv (store s)) c (store s)"
  by (auto simp: issue_def split: option.splits)

lemma modify_initiator_calls:
  "modify_initiator cfg p x z s = Inr s' \<Longrightarrow>
     \<not> use_rest cfg \<and> calls s' = calls s @ [Zapi_modify_initiator z (name p) x]"
  by (auto simp: modify_initiator_def split: if_splits sum.splits dest: issue_calls)

lemma delete_initiator_rest_calls:
  "delete_initiator_rest cfg u x s = Inr s' \<Longrightarrow>
     calls s' = calls s @ [Rest_delete_initiator u x]"
  by (auto simp: delete_initiator_rest_def fail_on_error_def split: sum.splits dest: issue_calls)

lemma remove_initiators_calls:
  "remove_initiators cfg p uuid cur s = Inr s' \<Longrightarrow>
     calls s' =
       calls s @ map (removal cfg p uuid) (filter (\<lambda>x. x \<notin> set (desired_or_empty p)) cur)"
proof (induction cur arbitrary: s)
  case Nil
  then show ?case by simp
next
  case (Cons x cur)
  show ?case
  proof (cases "x \<in> set (desired_or_empty p)")
    case True
    with Cons show ?thesis by simp
  next
    case False
    with Cons.prems obtain s1 where
      s1: "(if use_rest cfg then delete_initiator_rest cfg uuid x s
            else modify_initiator cfg p x ''igroup-remove'' s) = Inr s1"
      and rest: "remove_initiators cfg p uuid cur s1 = Inr s'"
      by (auto split: sum.splits)
    from s1 have "calls s1 = calls s @ [removal cfg p uuid x]"
      by (auto simp: removal_def split: if_splits
               dest: delete_initiator_rest_calls modify_initiator_calls)
    with Cons.IH [OF rest] False show ?thesis by simp
  qed
qed

lemma add_each_calls:
  "add_each cfg p xs s = Inr s' \<Longrightarrow>
     calls s' = calls s @ map (Zapi_modify_initiator ''igroup-add'' (name p)) xs"
proof (induction xs arbitrary: s)
  case Nil
  then show ?case by simp
next
  case (Cons x xs)
  from Cons.prems obtain s1 where
    s1: "modify_initiator cfg p x ''igroup-add'' s = Inr s1"
    and rest: "add_each cfg p xs s1 = Inr s'"
    by (auto split: sum.splits)
  from modify_initiator_calls [OF s1] Cons.IH [OF rest] show ?case by simp
qed

lemma add_initiators_calls:
  assumes "add_initiators cfg p uuid cur s = Inr s'" and "initiators p = Some desired"
    and "desired \<noteq> ['''']"
  shows "calls s' = calls s @ additions cfg p uuid (filter (\<lambda>x. x \<notin> set cur) desired)"
  using assms
  by (auto simp: add_initiators_def additions_def Let_def add_initiators_rest_def
                 fail_on_error_def
           split: if_splits sum.splits dest: issue_calls add_each_calls)

lemma without_Nil: "without [] g = g"
  by (simp add: without_def)

lemma without_Cons: "without xs (remove_member x g) = without (x # xs) g"
proof -
  have "filter (\<lambda>i. i \<notin> set xs) (removeAll x l) = filter (\<lambda>i. i \<notin> set (x # xs)) l" for l
    by (induction l) auto
  then show ?thesis by (simp add: without_def remove_member_def)
qed

lemma removal_step:
  assumes "(if use_rest cfg then delete_initiator_rest cfg uuid x s
            else modify_initiator cfg p x ''igroup-remove'' s) = Inr s1"
  shows "store s1 =
           map (\<lambda>g. if addressed cfg p uuid g then remove_member x g else g) (store s)"
  using assms
  by (auto simp: delete_initiator_rest_def modify_initiator_def fail_on_error_def addressed_def
                 at_uuid_def at_name_def
           split: if_splits sum.splits dest!: issue_store)

lemma addressed_remove_member:
  "addressed cfg p uuid (remove_member x g) = addressed cfg p uuid g"
  by (simp add: addressed_def remove_member_def)

lemma remove_initiators_store:
  "remove_initiators cfg p uuid cur s = Inr s' \<Longrightarrow>
     store s' =
       map (\<lambda>g. if addressed cfg p uuid g
                 then without (filter (\<lambda>x. x \<notin> set (desired_or_empty p)) cur) g else g)
           (store s)"
proof (induction cur arbitrary: s)
  case Nil
  then show ?case by (simp add: without_Nil cong: if_cong)
next
  case (Cons x cur)
  show ?case
  proof (cases "x \<in> set (desired_or_empty p)")
    case True
    with Cons show ?thesis by simp
  next
    case False
    with Cons.prems obtain s1 where
      s1: "(if use_rest cfg then delete_initiator_rest cfg uuid x s
            else modify_initiator cfg p x ''igroup-remove'' s) = Inr s1"
      and rest: "remove_initiators cfg p uuid cur s1 = Inr s'"
      by (auto split: sum.splits)
    show ?thesis
      using False
      by (simp add: Cons.IH [OF rest] removal_step [OF s1] addressed_remove_member without_Cons
               cong: if_cong)
  qed
qed

text \<open>
  C7, as the code has it. One modify of the initiators is \<open>remove_initiators\<close> followed by
  \<open>add_initiators\<close> on the initiators read before. Unless the desired list is the single
  empty string, the calls the two send are exactly: one removal for each current initiator
  that is not desired, in the order of the current list, then the additions for the desired
  initiators that are not current (over ZAPI one call each, over REST one call that carries
  them all, and no call when there is none). An initiator in both lists is in neither
  filter, so it is neither removed nor added again. A missing desired list counts as empty.
\<close>

theorem initiators_calls_exact:
  assumes "remove_initiators cfg p uuid cur s = Inr s1"
    and "add_initiators cfg p uuid cur s1 = Inr s2"
    and "initiators p \<noteq> Some ['''']"
  shows "calls s2 =
           calls s
           @ map (removal cfg p uuid) (filter (\<lambda>x. x \<notin> set (desired_or_empty p)) cur)
           @ additions cfg p uuid (filter (\<lambda>x. x \<notin> set cur) (desired_or_empty p))"
proof (cases "initiators p")
  case None
  with assms(2) have "s2 = s1" by (simp add: add_initiators_def)
  moreover from None
  have "additions cfg p uuid (filter (\<lambda>x. x \<notin> set cur) (desired_or_empty p)) = []"
    by (simp add: desired_or_empty_def additions_def)
  ultimately show ?thesis using remove_initiators_calls [OF assms(1)] by simp
next
  case (Some desired)
  with assms(3) have "desired \<noteq> ['''']" by simp
  from add_initiators_calls [OF assms(2) Some this] remove_initiators_calls [OF assms(1)] Some
  show ?thesis by (simp add: desired_or_empty_def)
qed

text \<open>
  A run of it over REST: the igroup holds a and b, the playbook wants b and c; a is deleted,
  c is posted, b is left alone.
\<close>

theorem initiators_calls_exact_witness:
  "remove_initiators over_rest (want (Some [''b'', ''c''])) (Some ''uuid-1'') [''a'', ''b'']
       \<lparr>store = [ig1], calls = []\<rparr>
     = Inr \<lparr>store = [ig1\<lparr>ig_initiators := [''b'']\<rparr>],
            calls = [Rest_delete_initiator (Some ''uuid-1'') ''a'']\<rparr>
   \<and> add_initiators over_rest (want (Some [''b'', ''c''])) (Some ''uuid-1'') [''a'', ''b'']
       \<lparr>store = [ig1\<lparr>ig_initiators := [''b'']\<rparr>],
        calls = [Rest_delete_initiator (Some ''uuid-1'') ''a'']\<rparr>
     = Inr \<lparr>store = [ig1\<lparr>ig_initiators := [''b'', ''c'']\<rparr>],
            calls = [Rest_delete_initiator (Some ''uuid-1'') ''a'',
                     Rest_post_initiators (Some ''uuid-1'') [''c'']]\<rparr>
   \<and> initiators (want (Some [''b'', ''c''])) \<noteq> Some ['''']
   \<and> calls \<lparr>store = [ig1\<lparr>ig_initiators := [''b'', ''c'']\<rparr>],
             calls = [Rest_delete_initiator (Some ''uuid-1'') ''a'',
                      Rest_post_initiators (Some ''uuid-1'') [''c'']]\<rparr>
       = calls \<lparr>store = [ig1], calls = []\<rparr>
         @ map (removal over_rest (want (Some [''b'', ''c''])) (Some ''uuid-1'')) [''a'']
         @ additions over_rest (want (Some [''b'', ''c''])) (Some ''uuid-1'') [''c'']"
proof -
  have h1: "remove_initiators over_rest (want (Some [''b'', ''c''])) (Some ''uuid-1'')
              [''a'', ''b''] \<lparr>store = [ig1], calls = []\<rparr>
            = Inr \<lparr>store = [ig1\<lparr>ig_initiators := [''b'']\<rparr>],
                   calls = [Rest_delete_initiator (Some ''uuid-1'') ''a'']\<rparr>"
    by (simp add: desired_or_empty_def want_def over_rest_def accepting_def ig1_def
                  delete_initiator_rest_def fail_on_error_def issue_def at_uuid_def
                  remove_member_def)
  have h2: "add_initiators over_rest (want (Some [''b'', ''c''])) (Some ''uuid-1'')
              [''a'', ''b'']
              \<lparr>store = [ig1\<lparr>ig_initiators := [''b'']\<rparr>],
               calls = [Rest_delete_initiator (Some ''uuid-1'') ''a'']\<rparr>
            = Inr \<lparr>store = [ig1\<lparr>ig_initiators := [''b'', ''c'']\<rparr>],
                   calls = [Rest_delete_initiator (Some ''uuid-1'') ''a'',
                            Rest_post_initiators (Some ''uuid-1'') [''c'']]\<rparr>"
    by (simp add: add_initiators_def want_def over_rest_def accepting_def ig1_def
                  add_initiators_rest_def fail_on_error_def issue_def at_uuid_def
                  add_members_def Let_def)
  have h3: "initiators (want (Some [''b'', ''c''])) \<noteq> Some ['''']"
    by (simp add: want_def)
  from initiators_calls_exact [OF h1 h2 h3] h1 h2 h3 show ?thesis
    by (simp add: desired_or_empty_def want_def)
qed

text \<open>
  C7 as it is written fails where the desired list is the single empty string: the empty
  string is a desired initiator that the igroup does not hold, and no call adds it.
\<close>

theorem add_initiators_empty_string_counterexample:
  "'''' \<in> set (desired_or_empty (want (Some ['''']))) \<and> '''' \<notin> set [''a'', ''b'']
   \<and> remove_initiators over_zapi (want (Some [''''])) None [''a'', ''b'']
         \<lparr>store = [ig1], calls = []\<rparr>
       = Inr \<lparr>store = [ig1\<lparr>ig_initiators := []\<rparr>],
              calls = [Zapi_modify_initiator ''igroup-remove'' ''ig1'' ''a'',
                       Zapi_modify_initiator ''igroup-remove'' ''ig1'' ''b'']\<rparr>
   \<and> add_initiators over_zapi (want (Some [''''])) None [''a'', ''b'']
         \<lparr>store = [ig1\<lparr>ig_initiators := []\<rparr>],
          calls = [Zapi_modify_initiator ''igroup-remove'' ''ig1'' ''a'',
                   Zapi_modify_initiator ''igroup-remove'' ''ig1'' ''b'']\<rparr>
       = Inr \<lparr>store = [ig1\<lparr>ig_initiators := []\<rparr>],
              calls = [Zapi_modify_initiator ''igroup-remove'' ''ig1'' ''a'',
                       Zapi_modify_initiator ''igroup-remove'' ''ig1'' ''b'']\<rparr>
   \<and> Zapi_modify_initiator ''igroup-add'' ''ig1'' ''''
       \<notin> set [Zapi_modify_initiator ''igroup-remove'' ''ig1'' ''a'',
                Zapi_modify_initiator ''igroup-remove'' ''ig1'' ''b'']"
  by (simp add: desired_or_empty_def want_def over_zapi_def accepting_def ig1_def
                modify_initiator_def issue_def at_name_def remove_member_def add_initiators_def)

text \<open>
  C10. With the desired list equal to the single empty string, \<open>add_initiators\<close> returns
  at once and sends nothing, while \<open>remove_initiators\<close> sends a removal for every current
  initiator that is not in that list, that is, for every one but the empty string. Every
  igroup the calls address loses these initiators: when no current initiator is the empty
  string, it is left with none of the initiators that were read.
\<close>

theorem empty_string_empties_igroup:
  assumes "initiators p = Some ['''']"
    and "remove_initiators cfg p uuid cur s = Inr s1"
  shows "add_initiators cfg p uuid cur s1 = Inr s1
     \<and> calls s1 = calls s @ map (removal cfg p uuid) (filter (\<lambda>x. x \<notin> set ['''']) cur)
     \<and> store s1 =
         map (\<lambda>g. if addressed cfg p uuid g then without (filter (\<lambda>x. x \<noteq> '''') cur) g else g)
             (store s)
     \<and> ('''' \<notin> set cur \<longrightarrow>
         (\<forall>g \<in> set (store s1).
            addressed cfg p uuid g \<longrightarrow> set (ig_initiators g) \<inter> set cur = {}))"
proof -
  from assms(1) have d: "desired_or_empty p = ['''']" by (simp add: desired_or_empty_def)
  have f: "filter (\<lambda>x. x \<notin> set (desired_or_empty p)) cur = filter (\<lambda>x. x \<noteq> '''') cur"
    by (simp add: d)
  have a: "add_initiators cfg p uuid cur s1 = Inr s1"
    using assms(1) by (simp add: add_initiators_def)
  have c: "calls s1 = calls s @ map (removal cfg p uuid) (filter (\<lambda>x. x \<notin> set ['''']) cur)"
    using remove_initiators_calls [OF assms(2)] by (simp add: d)
  have st: "store s1 =
         map (\<lambda>g. if addressed cfg p uuid g then without (filter (\<lambda>x. x \<noteq> '''') cur) g else g)
             (store s)"
    using remove_initiators_store [OF assms(2)] by (simp only: f)
  have e: "set (ig_initiators g) \<inter> set cur = {}"
    if "'''' \<notin> set cur" "g \<in> set (store s1)" "addressed cfg p uuid g" for g
  proof -
    from that(2) st obtain g0 where g0: "g0 \<in> set (store s)"
      and g: "g = (if addressed cfg p uuid g0
                   then without (filter (\<lambda>x. x \<noteq> '''') cur) g0 else g0)"
      by auto
    have "addressed cfg p uuid (without xs g0) = addressed cfg p uuid g0" for xs
      by (simp add: addressed_def without_def)
    with g that(3) have "g = without (filter (\<lambda>x. x \<noteq> '''') cur) g0"
      by (auto split: if_splits)
    with that(1) show ?thesis by (auto simp: without_def)
  qed
  from a c st e show ?thesis by blast
qed

text \<open>A run of it over ZAPI: the igroup holds a and b, and is left empty.\<close>

theorem empty_string_empties_igroup_witness:
  "initiators (want (Some [''''])) = Some ['''']
   \<and> remove_initiators over_zapi (want (Some [''''])) None [''a'', ''b'']
         \<lparr>store = [ig1], calls = []\<rparr>
       = Inr \<lparr>store = [ig1\<lparr>ig_initiators := []\<rparr>],
              calls = [Zapi_modify_initiator ''igroup-remove'' ''ig1'' ''a'',
                       Zapi_modify_initiator ''igroup-remove'' ''ig1'' ''b'']\<rparr>
   \<and> add_initiators over_zapi (want (Some [''''])) None [''a'', ''b'']
         \<lparr>store = [ig1\<lparr>ig_initiators := []\<rparr>],
          calls = [Zapi_modify_initiator ''igroup-remove'' ''ig1'' ''a'',
                   Zapi_modify_initiator ''igroup-remove'' ''ig1'' ''b'']\<rparr>
       = Inr \<lparr>store = [ig1\<lparr>ig_initiators := []\<rparr>],
              calls = [Zapi_modify_initiator ''igroup-remove'' ''ig1'' ''a'',
                       Zapi_modify_initiator ''igroup-remove'' ''ig1'' ''b'']\<rparr>
   \<and> addressed over_zapi (want (Some [''''])) None (ig1\<lparr>ig_initiators := []\<rparr>)
   \<and> set (ig_initiators (ig1\<lparr>ig_initiators := []\<rparr>)) \<inter> set [''a'', ''b''] = {}"
proof -
  have h1: "initiators (want (Some [''''])) = Some ['''']"
    by (simp add: want_def)
  have h2: "remove_initiators over_zapi (want (Some [''''])) None [''a'', ''b'']
              \<lparr>store = [ig1], calls = []\<rparr>
            = Inr \<lparr>store = [ig1\<lparr>ig_initiators := []\<rparr>],
                   calls = [Zapi_modify_initiator ''igroup-remove'' ''ig1'' ''a'',
                            Zapi_modify_initiator ''igroup-remove'' ''ig1'' ''b'']\<rparr>"
    by (simp add: desired_or_empty_def want_def over_zapi_def accepting_def ig1_def
                  modify_initiator_def issue_def at_name_def remove_member_def)
  have h3: "addressed over_zapi (want (Some [''''])) None (ig1\<lparr>ig_initiators := []\<rparr>)"
    by (simp add: addressed_def over_zapi_def want_def ig1_def)
  have h4: "set (ig_initiators (ig1\<lparr>ig_initiators := []\<rparr>)) \<inter> set [''a'', ''b''] = {}"
    by simp
  from empty_string_empties_igroup [OF h1 h2]
  have a: "add_initiators over_zapi (want (Some [''''])) None [''a'', ''b'']
             \<lparr>store = [ig1\<lparr>ig_initiators := []\<rparr>],
              calls = [Zapi_modify_initiator ''igroup-remove'' ''ig1'' ''a'',
                       Zapi_modify_initiator ''igroup-remove'' ''ig1'' ''b'']\<rparr>
           = Inr \<lparr>store = [ig1\<lparr>ig_initiators := []\<rparr>],
                  calls = [Zapi_modify_initiator ''igroup-remove'' ''ig1'' ''a'',
                           Zapi_modify_initiator ''igroup-remove'' ''ig1'' ''b'']\<rparr>"
    by (rule conjunct1)
  from h1 h2 a h3 h4 show ?thesis by blast
qed

section \<open>Reading the current state\<close>

lemma desired_state_volume: "desired_state (volume_params_dict p) = volume_state p"
  by (simp add: desired_state_def volume_params_dict_def opt_entry_def split: option.splits)

lemma desired_state_igroup: "desired_state (params_dict p) = state p"
  by (simp add: desired_state_def params_dict_def)

text \<open>
  C8. A resource that is not there is the observed record \<open>None\<close>, not an error: the Azure
  read answers \<open>None\<close> whenever the SDK raises \<open>CloudError\<close>, which is what it does for a
  volume the service does not hold; the REST read of an igroup answers \<open>None\<close> for a reply
  with zero records; and over either transport the read of a name that no igroup of the
  remote system has answers \<open>None\<close>.
\<close>

theorem absent_resource_is_none:
  "get_azure_netapp_volume (CloudError e) = None
   \<and> (held a = None \<longrightarrow> get_azure_netapp_volume (volumes_get a) = None)
   \<and> get_igroup_rest (Some \<lparr>num_records = 0, records = rs\<rparr>, None) = Inr None
   \<and> (filter (\<lambda>g. ig_name g = n) (store s) = [] \<longrightarrow> get_igroup cfg p n s = Inr None)"
  by (simp add: get_azure_netapp_volume_def volumes_get_def get_igroup_rest_def
                check_for_0_or_1_records_def get_igroup_def rest_get_def zapi_get_def
                get_igroup_zapi_def)

theorem absent_resource_is_none_witness:
  "held \<lparr>held = None, received = []\<rparr> = None
   \<and> get_azure_netapp_volume (volumes_get \<lparr>held = None, received = []\<rparr>) = None
   \<and> filter (\<lambda>g. ig_name g = ''ig2'') (store \<lparr>store = [ig1], calls = []\<rparr>) = []
   \<and> get_igroup over_rest (want None) ''ig2'' \<lparr>store = [ig1], calls = []\<rparr> = Inr None
   \<and> get_igroup over_zapi (want None) ''ig2'' \<lparr>store = [ig1], calls = []\<rparr> = Inr None"
proof -
  have h1: "held \<lparr>held = None, received = []\<rparr> = None"
    by simp
  have h2: "filter (\<lambda>g. ig_name g = ''ig2'') (store \<lparr>store = [ig1], calls = []\<rparr>) = []"
    by (simp add: ig1_def)
  note t = absent_resource_is_none
    [of _ "\<lparr>held = None, received = []\<rparr>" _ "''ig2''" "\<lparr>store = [ig1], calls = []\<rparr>" _
        "want None"]
  from t [of _ _ over_rest] t [of _ _ over_zapi] h1 h2 show ?thesis
    by blast
qed

section \<open>The Azure volume module\<close>

lemma reconcile_check_mode:
  "azure_check_mode cfg \<Longrightarrow>
     reconcile cfg p s =
       Inr ((held s = None \<and> volume_state p = ''present'')
            \<or> (held s \<noteq> None \<and> volume_state p = ''absent''), s)"
  by (auto simp: reconcile_def get_cd_action_def desired_state_volume new_helper_def
                 get_azure_netapp_volume_def volumes_get_def split: option.splits)


lemma reconcile_unchanged:
  "reconcile cfg p s = Inr (False, s') \<Longrightarrow> s' = s"
  by (auto simp: reconcile_def get_cd_action_def desired_state_volume new_helper_def
                 get_azure_netapp_volume_def volumes_get_def Let_def
           split: option.splits if_splits sum.splits)

text \<open>
  C9. With state "present", a run that reaches \<open>exit_json\<close> has read the volume again after
  the reconciliation and reports the mount path: the IP address of the first mount target,
  a colon, a slash and the creation token. It never gets there when the second read finds
  no volume or a volume whose mount targets are missing: these are the two \<open>fail_json\<close>
  errors. A volume with an empty list of mount targets stops the run as well, by the
  \<open>IndexError\<close> of \<open>mount_targets[0]\<close>.
\<close>

theorem exec_module_mount_path:
  assumes "volume_state p = ''present''" and "reconcile cfg p s = Inr (chg, s')"
  shows "exec_module cfg p s =
           (case held s' of
              None \<Rightarrow> Inl (Volume_not_found (volume_name p))
            | Some v \<Rightarrow>
                (case mount_targets v of
                   None \<Rightarrow> Inl (Mount_targets_not_found (volume_name p))
                 | Some [] \<Rightarrow> Inl (Raise ''IndexError'')
                 | Some (t # ts) \<Rightarrow>
                     Inr (\<lparr>volume_changed = chg,
                           msg = percent_s (ip_address t) @ '':/'' @ percent_s (creation_token v)\<rparr>,
                          s')))"
  using assms
  by (simp add: exec_module_def mount_path_def get_azure_netapp_volume_def volumes_get_def
           split: option.splits list.splits)

theorem exec_module_mount_path_witness:
  "volume_state (vol_want ''present'') = ''present''
   \<and> reconcile (azure_run False) (vol_want ''present'') \<lparr>held = Some vol1, received = []\<rparr>
       = Inr (False, \<lparr>held = Some vol1, received = []\<rparr>)
   \<and> exec_module (azure_run False) (vol_want ''present'') \<lparr>held = Some vol1, received = []\<rparr>
       = Inr (\<lparr>volume_changed = False, msg = ''10.0.0.4:/vol1''\<rparr>,
              \<lparr>held = Some vol1, received = []\<rparr>)"
proof -
  have h1: "volume_state (vol_want ''present'') = ''present''"
    by (simp add: vol_want_def)
  have h2: "reconcile (azure_run False) (vol_want ''present'') \<lparr>held = Some vol1, received = []\<rparr>
              = Inr (False, \<lparr>held = Some vol1, received = []\<rparr>)"
    by (simp add: reconcile_def get_cd_action_def desired_state_volume h1
                  get_azure_netapp_volume_def volumes_get_def new_helper_def)
  from exec_module_mount_path [OF h1 h2] h1 h2 show ?thesis
    by (simp add: vol1_def percent_s_def)
qed

text \<open>
  C6 fails on the Azure module: in check mode, with state "present" and no volume yet,
  nothing is created, the second read finds nothing, and the run ends with the error
  "volume ... was created successfully, but cannot be found" instead of reporting that a
  change would be made.
\<close>

theorem check_mode_create_fails:
  assumes "azure_check_mode cfg" and "volume_state p = ''present''" and "held s = None"
  shows "exec_module cfg p s = Inl (Volume_not_found (volume_name p))"
  using assms
  by (simp add: exec_module_def reconcile_check_mode mount_path_def get_azure_netapp_volume_def
                volumes_get_def)

theorem check_mode_create_fails_witness:
  "azure_check_mode (azure_run True) \<and> volume_state (vol_want ''present'') = ''present''
   \<and> held \<lparr>held = None, received = []\<rparr> = None
   \<and> exec_module (azure_run True) (vol_want ''present'') \<lparr>held = None, received = []\<rparr>
       = Inl (Volume_not_found ''vol1'')"
proof -
  have h1: "azure_check_mode (azure_run True)" by (simp add: azure_run_def)
  have h2: "volume_state (vol_want ''present'') = ''present''" by (simp add: vol_want_def)
  have h3: "held \<lparr>held = None, received = []\<rparr> = None" by simp
  from check_mode_create_fails [OF h1 h2 h3] h1 h2 h3 show ?thesis
    by (simp add: vol_want_def)
qed

section \<open>What apply decides\<close>

lemma get_igroup_autosupport_log:
  "get_igroup cfg p n (autosupport_log cfg s) = get_igroup cfg p n s"
  by (simp add: get_igroup_def rest_get_def zapi_get_def autosupport_log_def)

lemma rename_step_autosupport_log:
  "rename_step cfg p h a c (autosupport_log cfg s) = rename_step cfg p h a c s"
  by (simp add: rename_step_def igroup_is_rename_action_def get_igroup_autosupport_log
           split: option.splits)

lemma decide_autosupport_log: "decide cfg p (autosupport_log cfg s) = decide cfg p s"
  by (simp add: decide_def rename_step_autosupport_log get_igroup_autosupport_log
           split: sum.splits prod.splits)




lemma decide_present:
  assumes "get_igroup cfg p (name p) s = Inr (Some c)" and "state p = ''present''"
  shows "decide cfg p s =
           (case current_uuid cfg (Some c) of
              Inl e \<Rightarrow> Inl e
            | Inr u \<Rightarrow>
                (case validate_modify cfg (Some (compared cfg p c)) of
                   Inl e \<Rightarrow> Inl e
                 | Inr ok \<Rightarrow>
                     Inr \<lparr>d_cd_action = None,
                          d_rename = (if use_rest cfg then Some False else None),
                          d_modify = Some (compared cfg p c), d_current = Some c, d_uuid = u,
                          d_helper =
                            new_helper\<lparr>changed := (changed_fields c (params_dict p) \<noteq> [])\<rparr>\<rparr>))"
  using assms
  by (auto simp: decide_def get_cd_action_def desired_state_igroup rename_step_def
                 modify_step_def get_modified_attributes_def compared_def new_helper_def Let_def
           split: option.splits sum.splits)

lemma decide_rename:
  assumes "get_igroup cfg p (name p) s = Inr None" and "state p = ''present''"
    and "from_name p = Some f" and "f \<noteq> []"
    and "get_igroup cfg p f s = Inr (Some old)"
  shows "decide cfg p s =
           (case current_uuid cfg (Some old) of
              Inl e \<Rightarrow> Inl e
            | Inr u \<Rightarrow>
                (case validate_modify cfg (Some (compared cfg p old)) of
                   Inl e \<Rightarrow> Inl e
                 | Inr ok \<Rightarrow>
                     Inr \<lparr>d_cd_action = None, d_rename = Some (\<not> use_rest cfg),
                          d_modify = Some (compared cfg p old), d_current = Some old,
                          d_uuid = u, d_helper = new_helper\<lparr>changed := True\<rparr>\<rparr>))"
  using assms
  by (auto simp: decide_def get_cd_action_def desired_state_igroup rename_step_def
                 igroup_is_rename_action_def is_rename_action_def
                 modify_step_def get_modified_attributes_def compared_def new_helper_def Let_def
           split: option.splits sum.splits)

lemma decide_rename_missing:
  assumes "get_igroup cfg p (name p) s = Inr None" and "state p = ''present''"
    and "from_name p = Some f" and "f \<noteq> []"
    and "get_igroup cfg p f s = Inr None"
  shows "decide cfg p s = Inl (From_name_not_found (Some f))"
  using assms
  by (simp add: decide_def get_cd_action_def desired_state_igroup rename_step_def
                igroup_is_rename_action_def is_rename_action_def)

section \<open>Changed fields and idle runs\<close>

lemma changed_fields_member:
  "(k, d) \<in> set (changed_fields c desired) \<longleftrightarrow>
     (\<exists>v. (k, v) \<in> set c \<and> map_of desired k = Some d \<and> differs v d)"
  by (induction c desired rule: changed_fields.induct) (auto split: option.splits)


lemma execute_no_change:
  "\<not> changed (d_helper d) \<Longrightarrow> execute cfg p d s = Inr (d_modify d, s)"
  by (simp add: execute_def)

lemma execute_check_mode:
  "check_mode cfg \<Longrightarrow> execute cfg p d s = Inr (d_modify d, s)"
  by (simp add: execute_def)

section \<open>The calls of a run\<close>

lemma replay_append: "replay sv (cs @ ds) gs = replay sv ds (replay sv cs gs)"
  by (induction cs arbitrary: gs) auto

lemma sent_Nil: "sent sv s [] s"
  by (simp add: sent_def)

lemma sent_trans: "sent sv s cs s1 \<Longrightarrow> sent sv s1 ds s2 \<Longrightarrow> sent sv s (cs @ ds) s2"
  by (simp add: sent_def replay_append)

lemma issue_sent: "issue sv c s = Inr s' \<Longrightarrow> sent sv s [c] s'"
  by (auto simp: sent_def issue_def split: option.splits)

lemma fail_on_error_Inr: "fail_on_error r = Inr x \<longleftrightarrow> r = Inr x"
  by (cases r) (auto simp: fail_on_error_def)

lemma modify_initiator_sent:
  "modify_initiator cfg p x z s = Inr s' \<Longrightarrow>
     \<not> use_rest cfg \<and> sent (svc cfg) s [Zapi_modify_initiator z (name p) x] s'"
  by (auto simp: modify_initiator_def split: if_splits sum.splits dest: issue_sent)

lemma remove_initiators_sent:
  "remove_initiators cfg p u cur s = Inr s' \<Longrightarrow>
     sent (svc cfg) s
       (map (removal cfg p u) (filter (\<lambda>x. x \<notin> set (desired_or_empty p)) cur)) s'"
proof (induction cur arbitrary: s)
  case Nil
  then show ?case by (simp add: sent_Nil)
next
  case (Cons x cur)
  show ?case
  proof (cases "x \<in> set (desired_or_empty p)")
    case True
    with Cons show ?thesis by simp
  next
    case False
    with Cons.prems obtain s1 where
      s1: "(if use_rest cfg then delete_initiator_rest cfg u x s
            else modify_initiator cfg p x ''igroup-remove'' s) = Inr s1"
      and rest: "remove_initiators cfg p u cur s1 = Inr s'"
      by (auto split: sum.splits)
    from s1 have "sent (svc cfg) s [removal cfg p u x] s1"
      by (auto simp: removal_def delete_initiator_rest_def fail_on_error_Inr
               split: if_splits dest: issue_sent modify_initiator_sent)
    from sent_trans [OF this Cons.IH [OF rest]] False show ?thesis by simp
  qed
qed

lemma add_each_sent:
  "add_each cfg p xs s = Inr s' \<Longrightarrow>
     \<not> (use_rest cfg \<and> xs \<noteq> [])
     \<and> sent (svc cfg) s (map (Zapi_modify_initiator ''igroup-add'' (name p)) xs) s'"
proof (induction xs arbitrary: s)
  case Nil
  then show ?case by (simp add: sent_Nil)
next
  case (Cons x xs)
  from Cons.prems obtain s1 where
    s1: "modify_initiator cfg p x ''igroup-add'' s = Inr s1"
    and rest: "add_each cfg p xs s1 = Inr s'"
    by (auto split: sum.splits)
  from modify_initiator_sent [OF s1] Cons.IH [OF rest]
  show ?case using sent_trans [of "svc cfg" s "[Zapi_modify_initiator ''igroup-add'' (name p) x]" s1]
    by auto
qed

lemma add_initiators_sent:
  assumes "add_initiators cfg p u cur s = Inr s'"
  shows "sent (svc cfg) s (additions cfg p u (to_add p cur)) s'"
proof (cases "initiators p")
  case None
  with assms show ?thesis
    by (simp add: add_initiators_def to_add_def additions_def sent_Nil)
next
  case (Some xs)
  show ?thesis
  proof (cases "xs = ['''']")
    case True
    with assms Some show ?thesis
      by (simp add: add_initiators_def to_add_def additions_def sent_Nil)
  next
    case False
    with assms Some show ?thesis
      by (auto simp: add_initiators_def to_add_def additions_def Let_def add_initiators_rest_def
                     fail_on_error_Inr sent_Nil
               split: if_splits dest: issue_sent add_each_sent)
  qed
qed

lemma modify_igroup_rest_sent:
  assumes "modify_igroup_rest cfg u m s = Inr s'" and "pop ''initiators'' m' = m"
  shows "sent (svc cfg) s (patch_calls u m') s'"
  using assms
  by (auto simp: modify_igroup_rest_def patch_calls_def fail_on_error_Inr sent_Nil
           split: sum.splits if_splits dest: issue_sent)

lemma first_calls_sent:
  assumes "(if d_rename d = Some True then rename_igroup cfg p s
            else if d_cd_action d = Some ''create'' then create_igroup cfg p s
            else if d_cd_action d = Some ''delete'' then delete_igroup cfg p (d_uuid d) s
            else Inr s) = Inr s'"
  shows "sent (svc cfg) s (first_calls cfg p d) s'"
proof -
  have create: "sent (svc cfg) s
                  (Zapi_igroup_create (name p) (os_type p) (initiator_group_type p)
                     (bind_portset p) # additions cfg p None (to_add p [])) s'"
    if "issue (svc cfg)
          (Zapi_igroup_create (name p) (os_type p) (initiator_group_type p) (bind_portset p)) s
        = Inr s1" and "add_initiators cfg p None [] s1 = Inr s'" for s1
    using sent_trans [OF issue_sent [OF that(1)] add_initiators_sent [OF that(2)]] by simp
  from assms show ?thesis
    by (auto simp: first_calls_def rename_igroup_def create_igroup_def create_igroup_rest_def
                   delete_igroup_def delete_igroup_rest_def fail_on_error_Inr sent_Nil
             split: if_splits option.splits sum.splits dest: issue_sent intro: create)
qed

lemma execute_sent:
  assumes "execute cfg p d s = Inr (m, s')"
  shows "sent (svc cfg) s (planned cfg p d) s'
       \<and> m = (if changed (d_helper d) \<and> \<not> check_mode cfg
              then map_option (pop ''initiators'') (d_modify d) else d_modify d)"
proof (cases "changed (d_helper d) \<and> \<not> check_mode cfg")
  case False
  with assms show ?thesis
    by (auto simp: execute_def planned_def sent_Nil)
next
  case True
  with assms obtain s1 where
    s1: "(if d_rename d = Some True then rename_igroup cfg p s
          else if d_cd_action d = Some ''create'' then create_igroup cfg p s
          else if d_cd_action d = Some ''delete'' then delete_igroup cfg p (d_uuid d) s
          else Inr s) = Inr s1"
    and rest: "(case d_modify d of
                None \<Rightarrow> Inr (None, s1)
              | Some m \<Rightarrow>
                  if m = [] then Inr (Some m, s1)
                  else
                    (case initiators_of (d_current d) of
                       Inl e \<Rightarrow> Inl e
                     | Inr xs \<Rightarrow>
                         (case remove_initiators cfg p (d_uuid d) xs s1 of
                            Inl e \<Rightarrow> Inl e
                          | Inr s2 \<Rightarrow>
                              (case add_initiators cfg p (d_uuid d) xs s2 of
                                 Inl e \<Rightarrow> Inl e
                               | Inr s3 \<Rightarrow>
                                   let m' = pop ''initiators'' m
                                   in if m' \<noteq> []
                                      then (case modify_igroup_rest cfg (d_uuid d) m' s3 of
                                              Inl e \<Rightarrow> Inl e
                                            | Inr s4 \<Rightarrow> Inr (Some m', s4))
                                      else Inr (Some m', s3))))) = Inr (m, s')"
    by (auto simp: execute_def split: sum.splits)
  note first = first_calls_sent [OF s1]
  have "sent (svc cfg) s1 (modify_calls cfg p d) s'
        \<and> m = map_option (pop ''initiators'') (d_modify d)"
  proof (cases "d_modify d")
    case None
    with rest show ?thesis by (simp add: modify_calls_def sent_Nil)
  next
    case (Some md)
    show ?thesis
    proof (cases "md = []")
      case True
      with Some have dm: "d_modify d = Some []" by simp
      from rest have "m = Some []" and "s' = s1" by (auto simp: dm)
      then show ?thesis by (simp add: dm modify_calls_def sent_Nil pop_def)
    next
      case False
      with rest Some obtain xs s2 s3 where
        xs: "initiators_of (d_current d) = Inr xs"
        and s2: "remove_initiators cfg p (d_uuid d) xs s1 = Inr s2"
        and s3: "add_initiators cfg p (d_uuid d) xs s2 = Inr s3"
        and last: "(if pop ''initiators'' md \<noteq> []
                    then (case modify_igroup_rest cfg (d_uuid d) (pop ''initiators'' md) s3 of
                            Inl e \<Rightarrow> Inl e
                          | Inr s4 \<Rightarrow> Inr (Some (pop ''initiators'' md), s4))
                    else Inr (Some (pop ''initiators'' md), s3)) = Inr (m, s')"
        by (auto simp: Let_def split: sum.splits)
      from sent_trans [OF remove_initiators_sent [OF s2] add_initiators_sent [OF s3]]
      have ini: "sent (svc cfg) s1 (initiator_calls cfg p (d_uuid d) xs) s3"
        by (simp add: initiator_calls_def)
      from last have "sent (svc cfg) s3 (patch_calls (d_uuid d) md) s'
                      \<and> m = Some (pop ''initiators'' md)"
        by (auto simp: sent_Nil patch_calls_def
                 split: if_splits sum.splits dest: modify_igroup_rest_sent)
      with sent_trans [OF ini] Some False xs show ?thesis
        by (auto simp: modify_calls_def)
    qed
  qed
  with sent_trans [OF first] True show ?thesis
    by (auto simp: planned_def)
qed

lemma apply_igroup_sent:
  assumes "apply_igroup cfg p s = Inr (r, s')"
  shows "\<exists>d. decide cfg p s = Inr d
             \<and> sent (svc cfg) (autosupport_log cfg s) (planned cfg p d) s'
             \<and> exit_changed r = changed (d_helper d) \<and> exit_current r = d_current d
             \<and> exit_modify r =
                 (if changed (d_helper d) \<and> \<not> check_mode cfg
                  then map_option (pop ''initiators'') (d_modify d) else d_modify d)"
proof -
  from assms obtain d m where d: "decide cfg p s = Inr d"
    and e: "execute cfg p d (autosupport_log cfg s) = Inr (m, s')"
    and r: "r = \<lparr>exit_changed = changed (d_helper d), exit_current = d_current d,
                 exit_modify = m\<rparr>"
    by (auto simp: apply_igroup_def decide_autosupport_log split: sum.splits)
  from execute_sent [OF e] d r show ?thesis by auto
qed

lemma compared_member:
  "(k, dv) \<in> set (compared cfg p c) \<longleftrightarrow>
     (use_rest cfg \<or> k \<noteq> ''name'')
     \<and> (\<exists>v. (k, v) \<in> set c \<and> map_of (params_dict p) k = Some dv \<and> differs v dv)"
  by (auto simp: compared_def pop_def changed_fields_member)

section \<open>Reading an igroup and comparing it\<close>

lemma store_autosupport_log: "store (autosupport_log cfg s) = store s"
  by (simp add: autosupport_log_def)

lemma initiator_names_Some: "initiator_names (map Some xs) = Inr xs"
  by (induction xs) auto

lemma get_igroup_none:
  "get_igroup cfg p n s = Inr None \<Longrightarrow> filter (\<lambda>g. ig_name g = n) (store s) = []"
  by (auto simp: get_igroup_def rest_get_def get_igroup_rest_def check_for_0_or_1_records_def
                 Let_def to_rest_record_def empty_record_def zapi_get_def get_igroup_zapi_def
                 initiator_names_Some
           split: if_splits list.splits option.splits sum.splits prod.splits)

lemma get_igroup_rest_found:
  assumes "use_rest cfg" and "get_igroup cfg p n s = Inr (Some c)"
  shows "\<exists>g os ty. filter (\<lambda>g. ig_name g = n) (store s) = [g]
           \<and> c = [(''name'', VStr n), (''uuid'', VStr (ig_uuid g)),
                  (''vserver'', VStr (vserver p)), (''os_type'', VStr os),
                  (''initiator_group_type'', VStr ty),
                  (''initiators'', VList (ig_initiators g))]"
proof -
  let ?found = "filter (\<lambda>g. ig_name g = n) (store s)"
  from assms have one: "length ?found = 1"
    by (auto simp: get_igroup_def rest_get_def get_igroup_rest_def
                   check_for_0_or_1_records_def Let_def
             split: if_splits list.splits)
  then obtain g where g: "?found = [g]"
    by (cases ?found) auto
  then have "g \<in> set ?found" by simp
  then have n: "ig_name g = n" by simp
  from assms g n show ?thesis
    by (auto simp: get_igroup_def rest_get_def get_igroup_rest_def
                   check_for_0_or_1_records_def Let_def to_rest_record_def
                   initiator_names_Some
             split: if_splits option.splits sum.splits)
qed

lemma get_igroup_zapi_found:
  assumes "\<not> use_rest cfg" and "get_igroup cfg p n s = Inr (Some c)"
  shows "\<exists>g gs. filter (\<lambda>g. ig_name g = n) (store s) = g # gs
           \<and> map_of c ''initiators'' = Some (VList (ig_initiators g))
           \<and> map_of c ''name'' = None"
proof -
  have no_name: "map_of (read_attributes content zapi_to_params) ''name'' = None" for content
    by (simp add: zapi_to_params_def split: option.splits)
  from assms show ?thesis
    by (cases "filter (\<lambda>g. ig_name g = n) (store s)")
       (auto simp: get_igroup_def zapi_get_def get_igroup_zapi_def no_name
             split: if_splits option.splits)
qed

lemma get_igroup_readable:
  assumes "readable cfg n (store s) g"
  shows "get_igroup cfg p n s = Inr (Some (observed cfg p g))"
proof (cases "use_rest cfg")
  case True
  with assms show ?thesis
    by (auto simp: readable_def get_igroup_def rest_get_def get_igroup_rest_def
                   check_for_0_or_1_records_def to_rest_record_def empty_record_def
                   initiator_names_Some observed_def opt_entry_def)
next
  case False
  with assms obtain gs where "filter (\<lambda>g. ig_name g = n) (store s) = g # gs"
    by (auto simp: readable_def)
  with False show ?thesis
    by (simp add: get_igroup_def zapi_get_def get_igroup_zapi_def zapi_to_params_def
                  observed_def)
qed

lemma get_igroup_Some:
  assumes "get_igroup cfg p n s = Inr (Some c)"
  shows "\<exists>g. readable cfg n (store s) g \<and> c = observed cfg p g"
proof (cases "use_rest cfg")
  case True
  from get_igroup_rest_found [OF True assms] obtain g os ty where
    found: "filter (\<lambda>g. ig_name g = n) (store s) = [g]"
    by blast
  with True assms have "ig_os_type g \<noteq> None \<and> ig_protocol g \<noteq> None"
    by (auto simp: get_igroup_def rest_get_def get_igroup_rest_def
                   check_for_0_or_1_records_def to_rest_record_def
             split: if_splits option.splits)
  with found True have r: "readable cfg n (store s) g"
    by (simp add: readable_def)
  from get_igroup_readable [OF r, of p] assms show ?thesis
    using r by auto
next
  case False
  from get_igroup_zapi_found [OF False assms] obtain g gs where
    "filter (\<lambda>g. ig_name g = n) (store s) = g # gs"
    by blast
  with False have r: "readable cfg n (store s) g"
    by (simp add: readable_def)
  from get_igroup_readable [OF r, of p] assms show ?thesis
    using r by auto
qed

lemma get_igroup_absent:
  "filter (\<lambda>g. ig_name g = n) (store s) = [] \<Longrightarrow> get_igroup cfg p n s = Inr None"
  by (simp add: get_igroup_def rest_get_def zapi_get_def get_igroup_rest_def
                check_for_0_or_1_records_def get_igroup_zapi_def)

lemma get_igroup_store:
  "store s = store s' \<Longrightarrow> get_igroup cfg p n s = get_igroup cfg p n s'"
  by (simp add: get_igroup_def rest_get_def zapi_get_def)

lemma rename_step_store:
  "store s = store s' \<Longrightarrow> rename_step cfg p h a c s = rename_step cfg p h a c s'"
  by (simp add: rename_step_def igroup_is_rename_action_def get_igroup_store [of s s']
           split: option.splits)

lemma decide_store:
  assumes "store s = store s'"
  shows "decide cfg p s = decide cfg p s'"
  unfolding decide_def get_igroup_store [OF assms] rename_step_store [OF assms]
  by (rule refl)

lemma map_of_params_name: "map_of (params_dict p) ''name'' = Some (VStr (name p))"
  by (simp add: params_dict_def)

lemma map_of_params_uuid: "map_of (params_dict p) ''uuid'' = None"
  by (simp add: params_dict_def opt_entry_def split: option.splits)

lemma map_of_params_vserver: "map_of (params_dict p) ''vserver'' = Some (VStr (vserver p))"
  by (simp add: params_dict_def opt_entry_def split: option.splits)

lemma map_of_params_os_type:
  "map_of (params_dict p) ''os_type'' = map_option VStr (os_type p)"
  by (simp add: params_dict_def opt_entry_def split: option.splits)

lemma map_of_params_type:
  "map_of (params_dict p) ''initiator_group_type'' = map_option VStr (initiator_group_type p)"
  by (simp add: params_dict_def opt_entry_def split: option.splits)

lemma map_of_params_list:
  "map_of (params_dict p) ''initiators'' = map_option VList (initiators p)"
  by (simp add: params_dict_def opt_entry_def split: option.splits)

lemma changed_fields_append:
  "changed_fields (c @ c') desired = changed_fields c desired @ changed_fields c' desired"
  by (induction c desired rule: changed_fields.induct) (auto split: option.splits)

lemma changed_fields_opt:
  "map_of (params_dict p) k = map_option VStr wanted \<Longrightarrow>
     changed_fields (opt_entry k VStr seen) (params_dict p) = field_change k seen wanted"
  by (cases seen; cases wanted) (simp_all add: opt_entry_def field_change_def)

lemma changed_fields_list:
  "changed_fields [(''initiators'', VList seen)] (params_dict p)
     = initiators_change seen (initiators p)"
  by (cases "initiators p") (simp_all add: map_of_params_list initiators_change_def)

lemma changed_fields_vserver:
  "changed_fields [(''vserver'', VStr (vserver p))] (params_dict p) = []"
  by (simp add: map_of_params_vserver)

lemma changed_fields_uuid: "changed_fields [(''uuid'', v)] (params_dict p) = []"
  by (simp add: map_of_params_uuid)

lemma changed_fields_name:
  "changed_fields [(''name'', VStr seen)] (params_dict p)
     = field_change ''name'' (Some seen) (Some (name p))"
  by (simp add: map_of_params_name field_change_def)

lemma changed_fields_observed:
  "changed_fields (observed cfg p g) (params_dict p) = differing cfg p g"
proof (cases "use_rest cfg")
  case True
  have "changed_fields ([(''name'', VStr (ig_name g))] @ [(''uuid'', VStr (ig_uuid g))]
                        @ [(''vserver'', VStr (vserver p))]
                        @ opt_entry ''os_type'' VStr (ig_os_type g)
                        @ opt_entry ''initiator_group_type'' VStr (ig_protocol g)
                        @ [(''initiators'', VList (ig_initiators g))]) (params_dict p)
        = field_change ''name'' (Some (ig_name g)) (Some (name p))
           @ field_change ''os_type'' (ig_os_type g) (os_type p)
           @ field_change ''initiator_group_type'' (ig_protocol g) (initiator_group_type p)
           @ initiators_change (ig_initiators g) (initiators p)"
    by (simp only: changed_fields_append changed_fields_name changed_fields_uuid
                   changed_fields_vserver changed_fields_list
                   changed_fields_opt [OF map_of_params_os_type]
                   changed_fields_opt [OF map_of_params_type]
                   append_Nil)
  with True show ?thesis by (simp add: observed_def differing_def)
next
  case False
  then show ?thesis
    by (simp only: observed_def differing_def if_False changed_fields_list)
qed

lemma compared_observed: "compared cfg p (observed cfg p g) = differing cfg p g"
proof (cases "use_rest cfg")
  case True
  then show ?thesis by (simp add: compared_def changed_fields_observed)
next
  case False
  then have "pop ''name'' (differing cfg p g) = differing cfg p g"
    by (simp add: differing_def initiators_change_def pop_def split: option.splits)
  with False show ?thesis by (simp add: compared_def changed_fields_observed)
qed

lemma current_uuid_observed:
  "current_uuid cfg (Some (observed cfg p g))
     = Inr (if use_rest cfg then Some (ig_uuid g) else None)"
  by (simp add: current_uuid_def observed_def)

lemma initiators_of_observed: "initiators_of (Some (observed cfg p g)) = Inr (ig_initiators g)"
  by (simp add: initiators_of_def observed_def opt_entry_def split: option.splits)

lemma pop_field_change: "k \<noteq> k' \<Longrightarrow> pop k' (field_change k a b) = field_change k a b"
  by (simp add: field_change_def pop_def split: option.splits)

lemma pop_initiators_change: "pop ''initiators'' (initiators_change seen wanted) = []"
  by (simp add: initiators_change_def pop_def split: option.splits)

lemma pop_append: "pop k (xs @ ys) = pop k xs @ pop k ys"
  by (simp add: pop_def)

lemma pop_differing:
  "pop ''initiators'' (differing cfg p g) =
     (if use_rest cfg
      then field_change ''name'' (Some (ig_name g)) (Some (name p))
           @ field_change ''os_type'' (ig_os_type g) (os_type p)
           @ field_change ''initiator_group_type'' (ig_protocol g) (initiator_group_type p)
      else [])"
  by (simp add: differing_def pop_append pop_field_change pop_initiators_change)

lemma unsupported_field_change:
  "filter (\<lambda>kv. map_of rest_modify_zapi_to_rest (fst kv) = None) (field_change k a b)
     = (if map_of rest_modify_zapi_to_rest k = None then field_change k a b else [])"
  by (simp add: field_change_def split: option.splits)

lemma validate_differing:
  "validate_modify cfg (Some (differing cfg p g)) =
     (if use_rest cfg
         \<and> field_change ''initiator_group_type'' (ig_protocol g) (initiator_group_type p) \<noteq> []
      then Inl (Modify_not_supported
                  (field_change ''initiator_group_type'' (ig_protocol g)
                     (initiator_group_type p)) ''REST'')
      else Inr ())"
proof -
  have keys: "map_of rest_modify_zapi_to_rest ''name'' \<noteq> None"
    "map_of rest_modify_zapi_to_rest ''os_type'' \<noteq> None"
    "map_of rest_modify_zapi_to_rest ''initiator_group_type'' = None"
    by (simp_all add: rest_modify_zapi_to_rest_def)
  have empty: "differing cfg p g = [] \<Longrightarrow>
                 field_change ''initiator_group_type'' (ig_protocol g) (initiator_group_type p)
                   = [] \<or> \<not> use_rest cfg"
    by (simp add: differing_def split: if_splits)
  show ?thesis
  proof (cases "differing cfg p g = []")
    case True
    with empty show ?thesis
      by (auto simp: validate_modify_def)
  next
    case False
    then show ?thesis
      by (simp add: validate_modify_def Let_def pop_differing report_error_in_modify_def
                    unsupported_field_change keys)
  qed
qed

lemma decide_read_present:
  assumes "readable cfg (name p) (store s) g" and "state p = ''present''"
  shows "decide cfg p s =
           (if use_rest cfg
               \<and> field_change ''initiator_group_type'' (ig_protocol g) (initiator_group_type p)
                   \<noteq> []
            then Inl (Modify_not_supported
                        (field_change ''initiator_group_type'' (ig_protocol g)
                           (initiator_group_type p)) ''REST'')
            else Inr \<lparr>d_cd_action = None,
                      d_rename = (if use_rest cfg then Some False else None),
                      d_modify = Some (differing cfg p g),
                      d_current = Some (observed cfg p g),
                      d_uuid = (if use_rest cfg then Some (ig_uuid g) else None),
                      d_helper = \<lparr>changed = (differing cfg p g \<noteq> [])\<rparr>\<rparr>)"
  by (simp add: decide_present [OF get_igroup_readable [OF assms(1)] assms(2)]
                compared_observed current_uuid_observed validate_differing
                changed_fields_observed new_helper_def)

lemma decide_read_rename:
  assumes "get_igroup cfg p (name p) s = Inr None" and "state p = ''present''"
    and "from_name p = Some f" and "f \<noteq> []" and "readable cfg f (store s) g"
  shows "decide cfg p s =
           (if use_rest cfg
               \<and> field_change ''initiator_group_type'' (ig_protocol g) (initiator_group_type p)
                   \<noteq> []
            then Inl (Modify_not_supported
                        (field_change ''initiator_group_type'' (ig_protocol g)
                           (initiator_group_type p)) ''REST'')
            else Inr \<lparr>d_cd_action = None, d_rename = Some (\<not> use_rest cfg),
                      d_modify = Some (differing cfg p g),
                      d_current = Some (observed cfg p g),
                      d_uuid = (if use_rest cfg then Some (ig_uuid g) else None),
                      d_helper = \<lparr>changed = True\<rparr>\<rparr>)"
  by (simp add: decide_rename [OF assms(1-4) get_igroup_readable [OF assms(5)]]
                compared_observed current_uuid_observed validate_differing new_helper_def)


section \<open>The action table\<close>

lemma readable_member:
  assumes "readable cfg n gs g"
  shows "g \<in> set gs \<and> ig_name g = n"
proof -
  from assms obtain more where "filter (\<lambda>g. ig_name g = n) gs = g # more"
    by (auto simp: readable_def split: if_splits)
  then have "g \<in> set (filter (\<lambda>g. ig_name g = n) gs)"
    by simp
  then show ?thesis by simp
qed





lemma rest_body_supported:
  "\<forall>kv \<in> set m. fst kv = ''name'' \<or> fst kv = ''os_type'' \<Longrightarrow> rest_body m = Inr m"
  by (induction m rule: rest_body.induct) (auto simp: rest_modify_zapi_to_rest_def)

lemma field_change_key: "kv \<in> set (field_change k a b) \<Longrightarrow> fst kv = k"
  by (auto simp: field_change_def split: option.splits if_splits)

lemma patch_calls_differing:
  assumes "use_rest cfg \<longrightarrow>
             field_change ''initiator_group_type'' (ig_protocol g) (initiator_group_type p) = []"
  shows "patch_calls u (differing cfg p g) =
     (if use_rest cfg
         \<and> field_change ''name'' (Some (ig_name g)) (Some (name p))
             @ field_change ''os_type'' (ig_os_type g) (os_type p) \<noteq> []
      then [Rest_patch_igroup u
              (field_change ''name'' (Some (ig_name g)) (Some (name p))
               @ field_change ''os_type'' (ig_os_type g) (os_type p))]
      else [])"
proof (cases "use_rest cfg")
  case False
  then show ?thesis by (simp add: patch_calls_def pop_differing)
next
  case True
  let ?m = "field_change ''name'' (Some (ig_name g)) (Some (name p))
            @ field_change ''os_type'' (ig_os_type g) (os_type p)"
  from True assms have pop: "pop ''initiators'' (differing cfg p g) = ?m"
    by (simp add: pop_differing)
  have "rest_body ?m = Inr ?m"
    by (rule rest_body_supported) (auto dest: field_change_key)
  with True show ?thesis
    by (simp add: patch_calls_def pop del: append_is_Nil_conv)
qed





lemma reconcile_delete_vol1:
  "reconcile (azure_run False) (vol_want ''absent'') \<lparr>held = Some vol1, received = []\<rparr>
     = Inr (True, \<lparr>held = None, received = [Delete_volume]\<rparr>)"
  by (simp add: reconcile_def get_cd_action_def desired_state_volume new_helper_def
                get_azure_netapp_volume_def volumes_get_def vol_want_def azure_run_def
                delete_azure_netapp_volume_def azure_issue_def)


lemma differing_ig1_rest:
  "differing over_rest (want (Some [''b'', ''c''])) ig1 = [(''initiators'', VList [''b'', ''c''])]"
proof -
  have "mset [''a'', ''b''] \<noteq> mset [''b'', ''c'']"
    by simp
  then show ?thesis
    by (simp add: differing_def over_rest_def want_def ig1_def field_change_def
                  initiators_change_def)
qed



section \<open>The shape of a decision\<close>

lemma decide_shape:
  assumes "decide cfg p s = Inr d"
  shows "d_cd_action d \<in> {Some ''create'', Some ''delete'', None}
       \<and> (d_rename d = Some True \<longrightarrow>
            \<not> use_rest cfg \<and> d_cd_action d = None \<and> changed (d_helper d))
       \<and> (\<forall>m. d_modify d = Some m \<longrightarrow>
            d_cd_action d = None \<and> (\<exists>c. d_current d = Some c \<and> m = compared cfg p c))"
proof -
  from assms obtain cur0 a0 h0 a ren0 cur h1 m ren h u where
    g: "get_igroup cfg p (name p) s = Inr cur0"
    and cd: "get_cd_action new_helper cur0 (params_dict p) = (a0, h0)"
    and rs: "rename_step cfg p h0 a0 cur0 s = Inr (a, ren0, cur, h1)"
    and ms: "modify_step cfg p h1 a ren0 cur = (m, ren, h)"
    and d: "d = \<lparr>d_cd_action = a, d_rename = ren, d_modify = m, d_current = cur,
                 d_uuid = u, d_helper = h\<rparr>"
    by (auto simp: decide_def split: sum.splits prod.splits if_splits)
  from cd have a0: "a0 \<in> {Some ''create'', Some ''delete'', None}"
    by (auto simp: get_cd_action_def split: if_splits)
  from cd have pres: "a0 = Some ''create'' \<longrightarrow> state p = ''present''"
    by (auto simp: get_cd_action_def desired_state_igroup split: if_splits)
  from rs a0 pres have a: "a \<in> {Some ''create'', Some ''delete'', None}"
    and r0: "ren0 = Some True \<longrightarrow>
               a = None \<and> changed h1 \<and> cur \<noteq> None \<and> state p = ''present''"
    and keep: "ren0 \<noteq> Some True \<longrightarrow> cur = cur0 \<and> a = a0"
    by (auto simp: rename_step_def igroup_is_rename_action_def is_rename_action_def
             split: option.splits sum.splits if_splits)
  from cd have none0: "a0 = None \<and> state p = ''present'' \<longrightarrow> cur0 \<noteq> None"
    by (auto simp: get_cd_action_def desired_state_igroup split: if_splits)
  with r0 keep have some: "a = None \<and> state p = ''present'' \<longrightarrow> cur \<noteq> None"
    by blast
  from ms r0 have ren: "ren = Some True \<longrightarrow> \<not> use_rest cfg \<and> a = None \<and> changed h"
    by (auto simp: modify_step_def get_modified_attributes_def Let_def
             split: if_splits option.splits prod.splits)
  from ms some have md: "\<forall>x. m = Some x \<longrightarrow> a = None \<and> (\<exists>c. cur = Some c \<and> x = compared cfg p c)"
    by (auto simp: modify_step_def get_modified_attributes_def compared_def Let_def
             split: if_splits option.splits prod.splits)
  from a ren md show ?thesis
    by (simp add: d)
qed

lemma reconcile_calls:
  assumes "reconcile ac vp a = Inr (chg, a')"
  shows "received a' = received a \<or> (\<exists>b. received a' = received a @ [Create_or_update b])
         \<or> received a' = received a @ [Delete_volume]"
  using assms
  by (auto simp: reconcile_def Let_def create_azure_netapp_volume_def
                 delete_azure_netapp_volume_def azure_issue_def
           split: prod.splits if_splits option.splits sum.splits)

lemma decide_current:
  assumes "decide cfg p s = Inr d" and "d_current d = Some c"
  shows "get_igroup cfg p (name p) s = Inr (Some c)
       \<or> (\<exists>f. from_name p = Some f \<and> get_igroup cfg p f s = Inr (Some c))"
proof -
  from assms(1) obtain cur0 a0 h0 a ren0 cur h1 where
    g: "get_igroup cfg p (name p) s = Inr cur0"
    and rs: "rename_step cfg p h0 a0 cur0 s = Inr (a, ren0, cur, h1)"
    and d: "d_current d = cur"
    by (auto simp: decide_def split: sum.splits prod.splits if_splits)
  from rs have "cur = cur0 \<or> (\<exists>f. from_name p = Some f \<and> get_igroup cfg p f s = Inr cur)"
    by (auto simp: rename_step_def igroup_is_rename_action_def is_rename_action_def
             split: option.splits sum.splits if_splits)
  with g d assms(2) show ?thesis
    by auto
qed

lemma decide_modify:
  assumes "decide cfg p s = Inr d" and "d_modify d = Some m"
  shows "\<exists>g. g \<in> set (store s) \<and> (ig_name g = name p \<or> from_name p = Some (ig_name g))
            \<and> d_current d = Some (observed cfg p g) \<and> m = differing cfg p g"
proof -
  from decide_shape [OF assms(1)] assms(2) obtain c where
    c: "d_current d = Some c" and m: "m = compared cfg p c"
    by blast
  from decide_current [OF assms(1) c] obtain n where
    n: "n = name p \<or> from_name p = Some n" and g: "get_igroup cfg p n s = Inr (Some c)"
    by blast
  from get_igroup_Some [OF g] obtain g0 where
    r: "readable cfg n (store s) g0" and o: "c = observed cfg p g0"
    by blast
  from readable_member [OF r] n c m o show ?thesis
    by (intro exI [of _ g0]) (auto simp: compared_observed)
qed

text \<open>
  C4, as the code has it. The Azure module sends no call, one create or one delete. A run
  of the igroup module that completes has made a decision: the action of the helper, which
  is create, delete or none; the rename flag, which is true only over ZAPI, only with no
  action, and marks the run as changed; and the modify dictionary, which is there only with
  no action. The dictionary is the comparison of an igroup of the remote system, the one
  read under \<open>name\<close> or under \<open>from_name\<close>, with the parameters: it holds exactly the
  fields that the record of this igroup and the parameters both have with values that
  differ, each with its new, desired value, and the record, which holds the old values, is
  the one reported as current. \<open>exit_json\<close> reports the flag, the record and the
  dictionary, the latter without \<open>initiators\<close> once the calls have been sent.
\<close>

theorem decision_and_changed_fields:
  assumes "reconcile ac vp a = Inr (chg, a')" and "apply_igroup cfg p s = Inr (r, s')"
  shows "(received a' = received a \<or> (\<exists>b. received a' = received a @ [Create_or_update b])
          \<or> received a' = received a @ [Delete_volume])
     \<and> (\<exists>d. decide cfg p s = Inr d
           \<and> d_cd_action d \<in> {Some ''create'', Some ''delete'', None}
           \<and> (d_rename d = Some True \<longrightarrow>
                \<not> use_rest cfg \<and> d_cd_action d = None \<and> changed (d_helper d))
           \<and> (\<forall>m. d_modify d = Some m \<longrightarrow>
                d_cd_action d = None
                \<and> (\<exists>g. g \<in> set (store s)
                       \<and> (ig_name g = name p \<or> from_name p = Some (ig_name g))
                       \<and> exit_current r = Some (observed cfg p g) \<and> m = differing cfg p g
                       \<and> (\<forall>k new. (k, new) \<in> set m \<longleftrightarrow>
                             (\<exists>old. (k, old) \<in> set (observed cfg p g)
                                    \<and> map_of (params_dict p) k = Some new
                                    \<and> differs old new))))
           \<and> exit_changed r = changed (d_helper d)
           \<and> exit_modify r =
               (if changed (d_helper d) \<and> \<not> check_mode cfg
                then map_option (pop ''initiators'') (d_modify d) else d_modify d))"
proof -
  from apply_igroup_sent [OF assms(2)] obtain d where d: "decide cfg p s = Inr d"
    and c: "exit_changed r = changed (d_helper d)" and o: "exit_current r = d_current d"
    and m: "exit_modify r =
              (if changed (d_helper d) \<and> \<not> check_mode cfg
               then map_option (pop ''initiators'') (d_modify d) else d_modify d)"
    by blast
  note shape = decide_shape [OF d]
  have fields: "d_cd_action d = None
                \<and> (\<exists>g. g \<in> set (store s)
                       \<and> (ig_name g = name p \<or> from_name p = Some (ig_name g))
                       \<and> exit_current r = Some (observed cfg p g) \<and> x = differing cfg p g
                       \<and> (\<forall>k new. (k, new) \<in> set x \<longleftrightarrow>
                             (\<exists>old. (k, old) \<in> set (observed cfg p g)
                                    \<and> map_of (params_dict p) k = Some new
                                    \<and> differs old new)))"
    if x: "d_modify d = Some x" for x
  proof -
    from shape x have none: "d_cd_action d = None"
      by blast
    from decide_modify [OF d x] obtain g where g: "g \<in> set (store s)"
      and n: "ig_name g = name p \<or> from_name p = Some (ig_name g)"
      and cur: "d_current d = Some (observed cfg p g)" and xd: "x = differing cfg p g"
      by blast
    have "(k, new) \<in> set x \<longleftrightarrow>
            (\<exists>old. (k, old) \<in> set (observed cfg p g) \<and> map_of (params_dict p) k = Some new
                   \<and> differs old new)" for k new
      unfolding xd changed_fields_observed [symmetric] by (rule changed_fields_member)
    with none g n cur xd o show ?thesis
      by (intro conjI exI [of _ g]) simp_all
  qed
  from shape have act: "d_cd_action d \<in> {Some ''create'', Some ''delete'', None}"
    and ren: "d_rename d = Some True \<longrightarrow>
                \<not> use_rest cfg \<and> d_cd_action d = None \<and> changed (d_helper d)"
    by blast+
  from d act ren fields c m
  have "\<exists>d. decide cfg p s = Inr d
           \<and> d_cd_action d \<in> {Some ''create'', Some ''delete'', None}
           \<and> (d_rename d = Some True \<longrightarrow>
                \<not> use_rest cfg \<and> d_cd_action d = None \<and> changed (d_helper d))
           \<and> (\<forall>m. d_modify d = Some m \<longrightarrow>
                d_cd_action d = None
                \<and> (\<exists>g. g \<in> set (store s)
                       \<and> (ig_name g = name p \<or> from_name p = Some (ig_name g))
                       \<and> exit_current r = Some (observed cfg p g) \<and> m = differing cfg p g
                       \<and> (\<forall>k new. (k, new) \<in> set m \<longleftrightarrow>
                             (\<exists>old. (k, old) \<in> set (observed cfg p g)
                                    \<and> map_of (params_dict p) k = Some new
                                    \<and> differs old new))))
           \<and> exit_changed r = changed (d_helper d)
           \<and> exit_modify r =
               (if changed (d_helper d) \<and> \<not> check_mode cfg
                then map_option (pop ''initiators'') (d_modify d) else d_modify d)"
    by (intro exI [of _ d] conjI allI impI) blast+
  with reconcile_calls [OF assms(1)] show ?thesis
    by (rule conjI)
qed

lemma readable_ig1_rest: "readable over_rest ''ig1'' (store calm) ig1"
  by (simp add: readable_def over_rest_def calm_def ig1_def)

lemma observed_ig1_rest: "observed over_rest (want xs) ig1 = ig1_seen"
  by (simp add: observed_def over_rest_def want_def ig1_def ig1_seen_def opt_entry_def)

lemma decide_ig1_rest:
  "decide over_rest (want (Some [''b'', ''c''])) calm
     = Inr \<lparr>d_cd_action = None, d_rename = Some False,
            d_modify = Some [(''initiators'', VList [''b'', ''c''])],
            d_current = Some ig1_seen, d_uuid = Some ''uuid-1'',
            d_helper = \<lparr>changed = True\<rparr>\<rparr>"
proof -
  let ?p = "want (Some [''b'', ''c''])"
  have r: "readable over_rest (name ?p) (store calm) ig1"
    using readable_ig1_rest by (simp add: want_def)
  have st: "state ?p = ''present''"
    by (simp add: want_def)
  have ty: "field_change ''initiator_group_type'' (ig_protocol ig1) (initiator_group_type ?p) = []"
    by (simp add: field_change_def ig1_def want_def)
  have u: "ig_uuid ig1 = ''uuid-1''" and rest: "use_rest over_rest"
    by (simp_all add: ig1_def over_rest_def)
  show ?thesis
    by (simp add: decide_read_present [OF r st] ty u rest differing_ig1_rest observed_ig1_rest)
qed

lemma apply_ig1_rest:
  "apply_igroup over_rest (want (Some [''b'', ''c''])) calm
     = Inr (\<lparr>exit_changed = True, exit_current = Some ig1_seen, exit_modify = Some []\<rparr>,
            \<lparr>store = [ig1\<lparr>ig_initiators := [''b'', ''c'']\<rparr>],
             calls = [Rest_delete_initiator (Some ''uuid-1'') ''a'',
                      Rest_post_initiators (Some ''uuid-1'') [''c'']]\<rparr>)"
proof -
  have e: "execute over_rest (want (Some [''b'', ''c'']))
             \<lparr>d_cd_action = None, d_rename = Some False,
              d_modify = Some [(''initiators'', VList [''b'', ''c''])],
              d_current = Some ig1_seen, d_uuid = Some ''uuid-1'',
              d_helper = \<lparr>changed = True\<rparr>\<rparr>
             (autosupport_log over_rest calm)
           = Inr (Some [], \<lparr>store = [ig1\<lparr>ig_initiators := [''b'', ''c'']\<rparr>],
                    calls = [Rest_delete_initiator (Some ''uuid-1'') ''a'',
                             Rest_post_initiators (Some ''uuid-1'') [''c'']]\<rparr>)"
    by (simp add: execute_def over_rest_def initiators_of_def ig1_seen_def want_def
                  desired_or_empty_def add_initiators_def add_initiators_rest_def Let_def
                  pop_def delete_initiator_rest_def fail_on_error_def issue_def accepting_def
                  autosupport_log_def calm_def at_uuid_def ig1_def remove_member_def
                  add_members_def)
  show ?thesis
    by (simp add: apply_igroup_def decide_autosupport_log decide_ig1_rest e)
qed

text \<open>
  A run of it over REST: the igroup holds a and b and the playbook wants b and c. The
  dictionary holds the initiators with the desired list, the record reported as current
  holds the old list, and the dictionary is reported empty after the calls.
\<close>

theorem decision_and_changed_fields_witness:
  "reconcile (azure_run False) (vol_want ''absent'') \<lparr>held = Some vol1, received = []\<rparr>
     = Inr (True, \<lparr>held = None, received = [Delete_volume]\<rparr>)
   \<and> apply_igroup over_rest (want (Some [''b'', ''c''])) calm
     = Inr (\<lparr>exit_changed = True, exit_current = Some ig1_seen, exit_modify = Some []\<rparr>,
            \<lparr>store = [ig1\<lparr>ig_initiators := [''b'', ''c'']\<rparr>],
             calls = [Rest_delete_initiator (Some ''uuid-1'') ''a'',
                      Rest_post_initiators (Some ''uuid-1'') [''c'']]\<rparr>)
   \<and> decide over_rest (want (Some [''b'', ''c''])) calm
     = Inr \<lparr>d_cd_action = None, d_rename = Some False,
            d_modify = Some [(''initiators'', VList [''b'', ''c''])],
            d_current = Some ig1_seen, d_uuid = Some ''uuid-1'',
            d_helper = \<lparr>changed = True\<rparr>\<rparr>
   \<and> differing over_rest (want (Some [''b'', ''c''])) ig1
     = [(''initiators'', VList [''b'', ''c''])]
   \<and> (''initiators'', VList [''a'', ''b'']) \<in> set ig1_seen
   \<and> differs (VList [''a'', ''b'']) (VList [''b'', ''c''])"
proof -
  let ?p = "want (Some [''b'', ''c''])"
  let ?r = "\<lparr>exit_changed = True, exit_current = Some ig1_seen, exit_modify = Some []\<rparr>"
  note t = decision_and_changed_fields [OF reconcile_delete_vol1 apply_ig1_rest,
                                         THEN conjunct2]
  then obtain d where d: "decide over_rest ?p calm = Inr d"
    and fields: "\<forall>m. d_modify d = Some m \<longrightarrow>
                d_cd_action d = None
                \<and> (\<exists>g. g \<in> set (store calm)
                       \<and> (ig_name g = name ?p \<or> from_name ?p = Some (ig_name g))
                       \<and> exit_current ?r = Some (observed over_rest ?p g)
                       \<and> m = differing over_rest ?p g
                       \<and> (\<forall>k new. (k, new) \<in> set m \<longleftrightarrow>
                             (\<exists>old. (k, old) \<in> set (observed over_rest ?p g)
                                    \<and> map_of (params_dict ?p) k = Some new
                                    \<and> differs old new)))"
    by blast
  from d have "d = \<lparr>d_cd_action = None, d_rename = Some False,
            d_modify = Some [(''initiators'', VList [''b'', ''c''])],
            d_current = Some ig1_seen, d_uuid = Some ''uuid-1'',
            d_helper = \<lparr>changed = True\<rparr>\<rparr>"
    by (simp add: decide_ig1_rest)
  then have m: "d_modify d = Some [(''initiators'', VList [''b'', ''c''])]"
    by simp
  from fields [THEN spec, THEN mp, OF m] obtain g where g: "g \<in> set (store calm)"
    and df: "[(''initiators'', VList [''b'', ''c''])] = differing over_rest ?p g"
    and mem: "\<forall>k new. (k, new) \<in> set [(''initiators'', VList [''b'', ''c''])] \<longleftrightarrow>
                 (\<exists>old. (k, old) \<in> set (observed over_rest ?p g)
                        \<and> map_of (params_dict ?p) k = Some new \<and> differs old new)"
    by blast
  from g have g1: "g = ig1"
    by (simp add: calm_def)
  from mem [THEN spec, THEN spec, of "''initiators''" "VList [''b'', ''c'']"]
  obtain old where o: "(''initiators'', old) \<in> set ig1_seen"
    and diff: "differs old (VList [''b'', ''c''])"
    by (auto simp: g1 observed_ig1_rest)
  from o have old: "old = VList [''a'', ''b'']"
    by (simp add: ig1_seen_def)
  from reconcile_delete_vol1 apply_ig1_rest decide_ig1_rest df [symmetric] o diff
  show ?thesis
    by (simp add: g1 old)
qed

lemma get_ig2_zapi: "get_igroup over_zapi renaming ''ig2'' calm = Inr None"
  by (simp add: get_igroup_def over_zapi_def zapi_get_def calm_def ig1_def get_igroup_zapi_def)

lemma readable_ig1_zapi: "readable over_zapi ''ig1'' (store calm) ig1"
  by (simp add: readable_def over_zapi_def calm_def ig1_def)

lemma decide_renaming_zapi:
  "decide over_zapi renaming calm =
     Inr \<lparr>d_cd_action = None, d_rename = Some True, d_modify = Some [],
          d_current = Some ig1_seen_zapi, d_uuid = None, d_helper = \<lparr>changed = True\<rparr>\<rparr>"
proof -
  have n: "name renaming = ''ig2''" and st: "state renaming = ''present''"
    and f: "from_name renaming = Some ''ig1''"
    by (simp_all add: renaming_def want_def)
  have g: "get_igroup over_zapi renaming (name renaming) calm = Inr None"
    by (simp add: n get_ig2_zapi)
  have r: "\<not> use_rest over_zapi"
    by (simp add: over_zapi_def)
  have c: "differing over_zapi renaming ig1 = []"
    by (simp add: differing_def r initiators_change_def renaming_def want_def ig1_def)
  have o: "observed over_zapi renaming ig1 = ig1_seen_zapi"
    by (simp add: observed_def r ig1_def ig1_seen_zapi_def)
  show ?thesis
    by (simp add: decide_read_rename [OF g st f _ readable_ig1_zapi] c o r)
qed

text \<open>
  C4 as it is written fails on a rename over ZAPI: the helper's action is none and no field
  is to be modified, and yet the run is a change: it renames the igroup.
\<close>

theorem rename_is_a_fifth_action_counterexample:
  "decide over_zapi renaming calm
     = Inr \<lparr>d_cd_action = None, d_rename = Some True, d_modify = Some [],
            d_current = Some ig1_seen_zapi, d_uuid = None, d_helper = \<lparr>changed = True\<rparr>\<rparr>
   \<and> apply_igroup over_zapi renaming calm
     = Inr (\<lparr>exit_changed = True, exit_current = Some ig1_seen_zapi, exit_modify = Some []\<rparr>,
            \<lparr>store = [ig1\<lparr>ig_name := ''ig2''\<rparr>],
             calls = [Ems_log_event, Zapi_igroup_rename ''ig1'' ''ig2'']\<rparr>)"
proof -
  have e: "execute over_zapi renaming
             \<lparr>d_cd_action = None, d_rename = Some True, d_modify = Some [],
              d_current = Some ig1_seen_zapi, d_uuid = None, d_helper = \<lparr>changed = True\<rparr>\<rparr>
             (autosupport_log over_zapi calm)
           = Inr (Some [], \<lparr>store = [ig1\<lparr>ig_name := ''ig2''\<rparr>],
                            calls = [Ems_log_event, Zapi_igroup_rename ''ig1'' ''ig2'']\<rparr>)"
    by (simp add: execute_def over_zapi_def rename_igroup_def renaming_def want_def issue_def
                  accepting_def autosupport_log_def calm_def at_name_def ig1_def)
  show ?thesis
    by (simp add: decide_renaming_zapi apply_igroup_def decide_autosupport_log e)
qed

section \<open>Rename\<close>

lemma effect_touch: "keeps c \<Longrightarrow> effect new c gs = map (touch c) gs"
  by (cases c) (auto simp: at_uuid_def at_name_def intro!: map_idI [symmetric])

lemma replay_touch:
  "\<forall>c \<in> set cs. keeps c \<Longrightarrow> replay sv cs gs = map (\<lambda>g. fold touch cs g) gs"
proof (induction cs arbitrary: gs)
  case Nil
  then show ?case by simp
next
  case (Cons c cs)
  then show ?case by (simp add: effect_touch comp_def)
qed

lemma patch_uuid: "ig_uuid (patch body g) = ig_uuid g"
  by (induction body g rule: patch.induct) auto

lemma patch_name:
  "\<forall>v. (''name'', v) \<in> set body \<longrightarrow> v = VStr n \<Longrightarrow>
     ig_name (patch body g) = (if \<exists>v. (''name'', v) \<in> set body then n else ig_name g)"
  by (induction body g rule: patch.induct) auto

lemma touch_uuid: "ig_uuid (touch c g) = ig_uuid g"
  by (cases c) (auto simp: add_members_def remove_member_def patch_uuid)

lemma fold_touch_uuid: "ig_uuid (fold touch cs g) = ig_uuid g"
  by (induction cs arbitrary: g) (auto simp: touch_uuid)

lemma replay_uuids:
  "\<forall>c \<in> set cs. keeps c \<Longrightarrow> map ig_uuid (replay sv cs gs) = map ig_uuid gs"
  by (simp add: replay_touch fold_touch_uuid comp_def)

lemma keeps_additions: "c \<in> set (additions cfg p u xs) \<Longrightarrow> keeps c"
  by (auto simp: additions_def split: if_splits)

lemma keeps_initiator_calls: "c \<in> set (initiator_calls cfg p u cur) \<Longrightarrow> keeps c"
  by (auto simp: initiator_calls_def removal_def dest: keeps_additions)

lemma keeps_patch_calls: "c \<in> set (patch_calls u m) \<Longrightarrow> keeps c"
  by (auto simp: patch_calls_def split: sum.splits if_splits)

lemma keeps_planned:
  assumes "d_cd_action d = None" and "c \<in> set (planned cfg p d)"
  shows "keeps c"
  using assms
  by (auto simp: planned_def first_calls_def modify_calls_def
           split: if_splits option.splits sum.splits
           dest: keeps_initiator_calls keeps_patch_calls)

lemma touch_initiator_call_name:
  "c \<in> set (initiator_calls cfg p u cur) \<Longrightarrow> ig_name (touch c g) = ig_name g"
  by (auto simp: initiator_calls_def removal_def additions_def add_members_def remove_member_def
           split: if_splits)

lemma fold_touch_names:
  "\<forall>c \<in> set cs. \<forall>g. ig_name (touch c g) = ig_name g \<Longrightarrow>
     ig_name (fold touch cs g) = ig_name g"
  by (induction cs arbitrary: g) auto

lemma patch_other_name:
  "\<forall>kv \<in> set body. fst kv \<noteq> ''name'' \<Longrightarrow> ig_name (patch body g) = ig_name g"
  by (induction body g rule: patch.induct) auto

lemma touch_patch_calls_name:
  assumes "use_rest cfg \<longrightarrow>
             field_change ''initiator_group_type'' (ig_protocol g) (initiator_group_type p) = []"
    and "field_change ''name'' (Some (ig_name g)) (Some (name p)) = []"
    and "c \<in> set (patch_calls u (differing cfg p g))"
  shows "ig_name (touch c h) = ig_name h"
proof -
  from assms(3) [unfolded patch_calls_differing [OF assms(1)]] assms(2)
  have c: "c = Rest_patch_igroup u (field_change ''os_type'' (ig_os_type g) (os_type p))"
    by (auto split: if_splits)
  have "\<forall>kv \<in> set (field_change ''os_type'' (ig_os_type g) (os_type p)). fst kv \<noteq> ''name''"
    by (auto dest: field_change_key)
  then show ?thesis
    by (simp add: c patch_other_name)
qed

text \<open>
  C3 fails over REST. There \<open>apply\<close> leaves the rename to the modify ("REST can use
  modify"), and the modify dictionary has the name only when the helper finds it changed.
  The helper compares strings in lower case, so when \<open>from_name\<close> and \<open>name\<close> differ in
  case only, the dictionary has no name and no call carries one: the run completes and
  reports a change, the record read under \<open>from_name\<close> is reported as current, and every
  igroup of the remote system has the name and the uuid it had, so that the igroup is not
  renamed and no igroup has the desired name after the run.
\<close>

theorem rest_rename_by_case_is_dropped:
  assumes "use_rest cfg" and "get_igroup cfg p (name p) s = Inr None"
    and "state p = ''present''" and "from_name p = Some f" and "f \<noteq> []"
    and "lower f = lower (name p)" and "get_igroup cfg p f s = Inr (Some old)"
    and "apply_igroup cfg p s = Inr (r, s')"
  shows "exit_changed r \<and> exit_current r = Some old
       \<and> map ig_name (store s') = map ig_name (store s)
       \<and> map ig_uuid (store s') = map ig_uuid (store s)
       \<and> (\<forall>u body. Rest_patch_igroup u body \<in> set (calls s') - set (calls s) \<longrightarrow>
             map_of body ''name'' = None)
       \<and> get_igroup cfg p (name p) s' = Inr None"
proof -
  from get_igroup_Some [OF assms(7)] obtain g where
    g: "readable cfg f (store s) g" and old: "old = observed cfg p g"
    by blast
  from readable_member [OF g] have n: "ig_name g = f"
    by simp
  from apply_igroup_sent [OF assms(8)] obtain d where d: "decide cfg p s = Inr d"
    and sent: "sent (svc cfg) (autosupport_log cfg s) (planned cfg p d) s'"
    and c: "exit_changed r = changed (d_helper d)" and o: "exit_current r = d_current d"
    by blast
  let ?ty = "field_change ''initiator_group_type'' (ig_protocol g) (initiator_group_type p)"
  from d decide_read_rename [OF assms(2-5) g] assms(1)
  have ty: "?ty = []"
    and shape: "d = \<lparr>d_cd_action = None, d_rename = Some False,
                     d_modify = Some (differing cfg p g),
                     d_current = Some (observed cfg p g), d_uuid = Some (ig_uuid g),
                     d_helper = \<lparr>changed = True\<rparr>\<rparr>"
    by (auto split: if_splits)
  from assms(6) n have same: "field_change ''name'' (Some (ig_name g)) (Some (name p)) = []"
    by (simp add: field_change_def)
  let ?cs = "planned cfg p d"
  have cs: "?cs = [] \<or> ?cs = initiator_calls cfg p (Some (ig_uuid g)) (ig_initiators g)
                            @ patch_calls (Some (ig_uuid g)) (differing cfg p g)"
    by (simp add: shape planned_def first_calls_def modify_calls_def initiators_of_observed)
  have names: "ig_name (touch c h) = ig_name h" if "c \<in> set ?cs" for c h
    using that cs touch_initiator_call_name [of c cfg p "Some (ig_uuid g)" "ig_initiators g" h]
          touch_patch_calls_name [of cfg g p c "Some (ig_uuid g)" h] ty same
    by auto
  have act: "d_cd_action d = None"
    by (simp add: shape)
  have keeps: "\<forall>c \<in> set ?cs. keeps c"
    using keeps_planned [OF act] by blast
  from sent have store: "store s' = map (\<lambda>g. fold touch ?cs g) (store s)"
    and calls: "calls s' = calls (autosupport_log cfg s) @ ?cs"
    by (simp_all add: sent_def replay_touch [OF keeps] store_autosupport_log)
  have same_names: "map ig_name (store s') = map ig_name (store s)"
    using names by (simp add: store fold_touch_names)
  have same_uuids: "map ig_uuid (store s') = map ig_uuid (store s)"
    by (simp add: store fold_touch_uuid)
  from assms(1) have log: "calls (autosupport_log cfg s) = calls s"
    by (simp add: autosupport_log_def)
  have no_name: "map_of body ''name'' = None"
    if "Rest_patch_igroup u body \<in> set (calls s') - set (calls s)" for u body
  proof -
    from that calls log have "Rest_patch_igroup u body \<in> set ?cs"
      by auto
    with cs have "Rest_patch_igroup u body
                    \<in> set (initiator_calls cfg p (Some (ig_uuid g)) (ig_initiators g))
                  \<or> Rest_patch_igroup u body
                    \<in> set (patch_calls (Some (ig_uuid g)) (differing cfg p g))"
      by auto
    then have "body = field_change ''os_type'' (ig_os_type g) (os_type p)"
      using same ty assms(1)
      by (auto simp: initiator_calls_def removal_def additions_def patch_calls_differing
               split: if_splits)
    then show ?thesis
      by (simp add: field_change_def split: option.splits)
  qed
  from get_igroup_none [OF assms(2)]
  have "filter (\<lambda>g. ig_name g = name p) (store s) = []" .
  then have "filter (\<lambda>n. n = name p) (map ig_name (store s)) = []"
    by (simp add: filter_map comp_def)
  then have "filter (\<lambda>n. n = name p) (map ig_name (store s')) = []"
    by (simp only: same_names)
  then have "filter (\<lambda>g. ig_name g = name p) (store s') = []"
    by (simp add: filter_map comp_def)
  then have absent: "get_igroup cfg p (name p) s' = Inr None"
    by (rule get_igroup_absent)
  from c o same_names same_uuids no_name absent show ?thesis
    by (simp add: shape old)
qed

lemma lower_IG1: "lower ''IG1'' = lower ''ig1''"
  by code_simp

lemma get_IG1_rest: "get_igroup over_rest renaming_case ''IG1'' s = Inr None"
  if "store s = [ig1]"
  using that
  by (simp add: get_igroup_def over_rest_def rest_get_def ig1_def
                get_igroup_rest_def check_for_0_or_1_records_def)

lemma apply_renaming_case_rest:
  "apply_igroup over_rest renaming_case calm
     = Inr (\<lparr>exit_changed = True, exit_current = Some ig1_seen, exit_modify = Some []\<rparr>, calm)"
proof -
  have n: "name renaming_case = ''IG1''" and st: "state renaming_case = ''present''"
    and f: "from_name renaming_case = Some ''ig1''"
    by (simp_all add: renaming_case_def want_def)
  have g: "get_igroup over_rest renaming_case (name renaming_case) calm = Inr None"
    by (simp add: n get_IG1_rest calm_def)
  have r: "use_rest over_rest" and quiet: "\<not> check_mode over_rest"
    by (simp_all add: over_rest_def)
  have c: "differing over_rest renaming_case ig1 = []"
    by (simp add: differing_def r field_change_def initiators_change_def renaming_case_def
                  want_def ig1_def lower_IG1)
  have o: "observed over_rest renaming_case ig1 = ig1_seen"
    by (simp add: observed_def r renaming_case_def want_def ig1_def ig1_seen_def opt_entry_def)
  have ty: "field_change ''initiator_group_type'' (ig_protocol ig1)
              (initiator_group_type renaming_case) = []"
    by (simp add: field_change_def renaming_case_def want_def ig1_def)
  have u: "ig_uuid ig1 = ''uuid-1''"
    by (simp add: ig1_def)
  have d: "decide over_rest renaming_case calm
           = Inr \<lparr>d_cd_action = None, d_rename = Some False, d_modify = Some [],
                  d_current = Some ig1_seen, d_uuid = Some ''uuid-1'',
                  d_helper = \<lparr>changed = True\<rparr>\<rparr>"
    by (simp add: decide_read_rename [OF g st f _ readable_ig1_rest] c o r ty u)
  have e: "execute over_rest renaming_case
             \<lparr>d_cd_action = None, d_rename = Some False, d_modify = Some [],
              d_current = Some ig1_seen, d_uuid = Some ''uuid-1'',
              d_helper = \<lparr>changed = True\<rparr>\<rparr>
             (autosupport_log over_rest calm)
           = Inr (Some [], calm)"
    by (simp add: execute_def quiet autosupport_log_def r)
  show ?thesis
    by (simp add: apply_igroup_def decide_autosupport_log d e)
qed

text \<open>
  The run that shows it: the remote system holds \<open>ig1\<close>, the playbook renames it to
  \<open>IG1\<close>. The run reports a change and sends nothing; \<open>ig1\<close> keeps its name.
\<close>

theorem rest_rename_by_case_is_dropped_witness:
  "use_rest over_rest
   \<and> get_igroup over_rest renaming_case (name renaming_case) calm = Inr None
   \<and> state renaming_case = ''present'' \<and> from_name renaming_case = Some ''ig1''
   \<and> ''ig1'' \<noteq> [] \<and> lower ''ig1'' = lower (name renaming_case)
   \<and> get_igroup over_rest renaming_case ''ig1'' calm = Inr (Some ig1_seen)
   \<and> apply_igroup over_rest renaming_case calm
       = Inr (\<lparr>exit_changed = True, exit_current = Some ig1_seen, exit_modify = Some []\<rparr>,
              calm)
   \<and> \<not> check_mode over_rest
   \<and> map ig_name (store calm) = [''ig1'']
   \<and> get_igroup over_rest renaming_case (name renaming_case) calm = Inr None"
proof -
  have r: "use_rest over_rest" and quiet: "\<not> check_mode over_rest"
    by (simp_all add: over_rest_def)
  have n: "name renaming_case = ''IG1''" and st: "state renaming_case = ''present''"
    and f: "from_name renaming_case = Some ''ig1''" and ne: "''ig1'' \<noteq> []"
    by (simp_all add: renaming_case_def want_def)
  have g: "get_igroup over_rest renaming_case (name renaming_case) calm = Inr None"
    by (simp add: n get_IG1_rest calm_def)
  have low: "lower ''ig1'' = lower (name renaming_case)"
    by (simp add: n lower_IG1)
  have old: "get_igroup over_rest renaming_case ''ig1'' calm = Inr (Some ig1_seen)"
    using get_igroup_readable [OF readable_ig1_rest, of renaming_case]
    by (simp add: observed_def r renaming_case_def want_def ig1_def ig1_seen_def opt_entry_def)
  note t = rest_rename_by_case_is_dropped [OF r g st f ne low old apply_renaming_case_rest]
  from t have after: "get_igroup over_rest renaming_case (name renaming_case) calm = Inr None"
    by blast
  have names: "map ig_name (store calm) = [''ig1'']"
    by (simp add: calm_def ig1_def)
  from r g st f ne low old apply_renaming_case_rest quiet names after show ?thesis
    by blast
qed

section \<open>Normalised values\<close>















end
